theory Spec2Isabelle
  imports Main "HOL-Library.Sublist"
begin

section \<open>Python values used by the segregation script\<close>

text \<open>
  Strings are lists of characters. Every Python function of \<^verbatim>\<open>main.py\<close> is
  modelled with an explicit result: \<open>Inl e\<close> when it raises \<open>e\<close>, \<open>Inr v\<close>
  when it returns \<open>v\<close>.
\<close>

datatype exn =
    ValueError
  | ReError
  | BotoError
  | OverflowError
  | NotModelled

text \<open>
  \<open>ValueError\<close>, \<open>ReError\<close> (\<^verbatim>\<open>re.error\<close>), \<open>BotoError\<close> (any exception of the
  storage client) and \<open>OverflowError\<close> are Python's. \<open>NotModelled\<close> is not an
  exception of Python: it is the answer of the executable library \<open>py\<close> below on
  an input outside the fragment it computes.
\<close>

subsection \<open>String methods and \<^verbatim>\<open>os.path\<close> helpers\<close>

text \<open>
  \<^verbatim>\<open>s.replace(old, new)\<close> for a non-empty \<open>old\<close>: every non-overlapping
  occurrence, scanning from the left.
\<close>

fun str_replace :: "string \<Rightarrow> string \<Rightarrow> string \<Rightarrow> string" where
  "str_replace old new [] = []"
| "str_replace old new (c # cs) =
     (if old \<noteq> [] \<and> prefix old (c # cs)
      then new @ str_replace old new (drop (length old) (c # cs))
      else c # str_replace old new cs)"

text \<open>\<^verbatim>\<open>s.split(sep, 1)\<close> for a one-character separator.\<close>

definition str_split1 :: "char \<Rightarrow> string \<Rightarrow> string list" where
  "str_split1 sep s =
     (if sep \<in> set s
      then [takeWhile (\<lambda>c. c \<noteq> sep) s, tl (dropWhile (\<lambda>c. c \<noteq> sep) s)]
      else [s])"

definition endswith_slash :: "string \<Rightarrow> bool" where
  "endswith_slash s = (s \<noteq> [] \<and> last s = CHR ''/'')"

definition startswith_slash :: "string \<Rightarrow> bool" where
  "startswith_slash s = (s \<noteq> [] \<and> hd s = CHR ''/'')"

text \<open>\<^verbatim>\<open>os.path.join(a, b)\<close> and \<^verbatim>\<open>os.path.basename(p)\<close> of \<^verbatim>\<open>posixpath\<close>.\<close>

definition path_join :: "string \<Rightarrow> string \<Rightarrow> string" where
  "path_join a b =
     (if startswith_slash b then b
      else if a = [] \<or> endswith_slash a then a @ b
      else a @ ''/'' @ b)"

definition basename :: "string \<Rightarrow> string" where
  "basename p = rev (takeWhile (\<lambda>c. c \<noteq> CHR ''/'') (rev p))"

section \<open>PathCodec: \<^verbatim>\<open>parse_s3_uri\<close>\<close>

text \<open>
  \<^verbatim>\<open>s3_bucket, s3_key = s3_path.replace('s3://', '').split('/', 1)\<close>:
  unpacking a one-element list raises \<open>ValueError\<close>.
\<close>

definition parse_s3_uri :: "string \<Rightarrow> exn + (string \<times> string)" where
  "parse_s3_uri s3_path =
     (case str_split1 CHR ''/'' (str_replace ''s3://'' '''' s3_path) of
        [s3_bucket, s3_key] \<Rightarrow> Inr (s3_bucket, s3_key)
      | _ \<Rightarrow> Inl ValueError)"

text \<open>
  The locator parser as the specification words it: strip the scheme prefix (when the
  string starts with it), split the remainder at the first separator, fail when there
  is none.
\<close>

definition spec_parse :: "string \<Rightarrow> exn + (string \<times> string)" where
  "spec_parse uri =
     (let rest = (if prefix ''s3://'' uri then drop 5 uri else uri)
      in if CHR ''/'' \<in> set rest
         then Inr (takeWhile (\<lambda>c. c \<noteq> CHR ''/'') rest,
                   tl (dropWhile (\<lambda>c. c \<noteq> CHR ''/'') rest))
         else Inl ValueError)"

section \<open>The run's state: object store, fault schedule, call history, log\<close>

text \<open>
  The storage client is the one external collaborator with state. It is modelled as a
  store of objects (bucket and key to content) together with a schedule of transport
  faults: each API call takes the next entry of \<open>faults\<close> and fails when it is
  \<open>True\<close>. Every call with its outcome is appended to \<open>calls\<close>, every logging
  call to \<open>logged\<close>. Tasks submitted to the worker pool are run in submission order.
\<close>

datatype s3_call =
    ListObjectsV2 string string int
  | CopyObject string string string
  | DeleteObject string string

datatype logrec =
    Warning_Empty_set
  | Warning_No_files_left
  | Info_Loop int int nat nat
  | Debug_Moving string string
  | Error_Moving string string exn
  | Error_No_match string string
  | Error_Fail_convert string string string string exn
  | Error_Run exn

record world =
  objects :: "((string \<times> string) \<times> string) list"
  faults :: "bool list"
  calls :: "(s3_call \<times> bool) list"
  logged :: "logrec list"

definition take_fault :: "world \<Rightarrow> bool \<times> world" where
  "take_fault w = (case faults w of [] \<Rightarrow> (False, w) | f # fs \<Rightarrow> (f, w\<lparr>faults := fs\<rparr>))"

definition record_call :: "s3_call \<Rightarrow> bool \<Rightarrow> world \<Rightarrow> world" where
  "record_call c ok w = w\<lparr>calls := calls w @ [(c, ok)]\<rparr>"

definition logging :: "logrec \<Rightarrow> world \<Rightarrow> world" where
  "logging r w = w\<lparr>logged := logged w @ [r]\<rparr>"

definition lookup_object :: "world \<Rightarrow> string \<times> string \<Rightarrow> string option" where
  "lookup_object w loc = map_of (objects w) loc"

definition keys_under :: "world \<Rightarrow> string \<Rightarrow> string \<Rightarrow> string list" where
  "keys_under w Bucket Prefix =
     map (\<lambda>e. snd (fst e)) (filter (\<lambda>e. fst (fst e) = Bucket \<and> prefix Prefix (snd (fst e))) (objects w))"

text \<open>The split of a \<^verbatim>\<open>CopySource\<close> string \<^verbatim>\<open>{bucket}/{key}\<close> done by the store.\<close>

definition copy_source_loc :: "string \<Rightarrow> string \<times> string" where
  "copy_source_loc src =
     (takeWhile (\<lambda>c. c \<noteq> CHR ''/'') src, tl (dropWhile (\<lambda>c. c \<noteq> CHR ''/'') src))"

text \<open>
  \<^verbatim>\<open>list_objects_v2(Bucket, Prefix, MaxKeys)\<close>: the keys of the response's
  \<^verbatim>\<open>Contents\<close> (none when the entry is absent); at most \<open>MaxKeys\<close> and never more
  than 1000.
\<close>

definition list_objects_v2 :: "string \<Rightarrow> string \<Rightarrow> int \<Rightarrow> world \<Rightarrow> (exn + string list) \<times> world" where
  "list_objects_v2 Bucket Prefix MaxKeys w =
     (let c = ListObjectsV2 Bucket Prefix MaxKeys; fw = take_fault w
      in if fst fw \<or> Bucket = [] \<or> MaxKeys < 0
         then (Inl BotoError, record_call c False (snd fw))
         else (Inr (take (nat (min MaxKeys 1000)) (keys_under w Bucket Prefix)),
               record_call c True (snd fw)))"

text \<open>
  \<^verbatim>\<open>copy_object(Bucket, Key, CopySource)\<close>: fails on a transport fault, on a
  missing source, and when the destination is the source itself (the store refuses to
  copy an object onto itself); otherwise the destination holds the source's content.
\<close>

definition copy_object :: "string \<Rightarrow> string \<Rightarrow> string \<Rightarrow> world \<Rightarrow> (exn + unit) \<times> world" where
  "copy_object Bucket Key CopySource w =
     (let c = CopyObject Bucket Key CopySource; fw = take_fault w; src = copy_source_loc CopySource
      in if fst fw \<or> Bucket = [] \<or> Key = [] \<or> CHR ''/'' \<notin> set CopySource \<or> src = (Bucket, Key)
         then (Inl BotoError, record_call c False (snd fw))
         else (case lookup_object w src of
                 None \<Rightarrow> (Inl BotoError, record_call c False (snd fw))
               | Some v \<Rightarrow>
                   (Inr (), record_call c True
                      ((snd fw)\<lparr>objects := ((Bucket, Key), v) #
                          filter (\<lambda>e. fst e \<noteq> (Bucket, Key)) (objects w)\<rparr>))))"

text \<open>\<^verbatim>\<open>delete_object(Bucket, Key)\<close>: deleting an absent key succeeds.\<close>

definition delete_object :: "string \<Rightarrow> string \<Rightarrow> world \<Rightarrow> (exn + unit) \<times> world" where
  "delete_object Bucket Key w =
     (let c = DeleteObject Bucket Key; fw = take_fault w
      in if fst fw \<or> Bucket = [] \<or> Key = []
         then (Inl BotoError, record_call c False (snd fw))
         else (Inr (), record_call c True
                 ((snd fw)\<lparr>objects := filter (\<lambda>e. fst e \<noteq> (Bucket, Key)) (objects w)\<rparr>)))"

section \<open>The Python library: regular expressions and datetimes\<close>

record datetime =
  year :: int
  month :: int
  day :: int
  hour :: int
  minute :: int
  second :: int
  microsecond :: int

text \<open>
  The library functions the script calls. \<open>re_compile\<close> may raise \<open>ReError\<close>;
  \<open>re_search\<close> returns the match's \<^verbatim>\<open>groups()\<close>, a group that took no part
  in the match being \<open>None\<close>; \<open>strptime date_string format\<close> may raise;
  \<open>minus_seconds t n\<close> is \<^verbatim>\<open>t - timedelta(seconds=n)\<close>. The theorems below hold
  for every such library; the library \<open>py\<close> defined later computes them.
\<close>

record 'p pylib =
  re_compile :: "string \<Rightarrow> exn + 'p"
  re_search :: "'p \<Rightarrow> string \<Rightarrow> string option list option"
  strptime :: "string \<Rightarrow> string \<Rightarrow> exn + datetime"
  strftime :: "datetime \<Rightarrow> string \<Rightarrow> string"
  minus_seconds :: "datetime \<Rightarrow> int \<Rightarrow> exn + datetime"

text \<open>\<^verbatim>\<open>str(g)\<close> of a group: the text \<^verbatim>\<open>None\<close> for a group that did not participate.\<close>

definition py_str :: "string option \<Rightarrow> string" where
  "py_str g = (case g of None \<Rightarrow> ''None'' | Some s \<Rightarrow> s)"

section \<open>DateExtractor: \<^verbatim>\<open>extract_datetime_from_filename\<close>\<close>

definition extract_datetime_from_filename ::
  "'p pylib \<Rightarrow> string \<Rightarrow> string \<Rightarrow> string \<Rightarrow> world \<Rightarrow> (exn + datetime option) \<times> world" where
  "extract_datetime_from_filename L filename regex_pattern datetime_format w =
     (case re_compile L regex_pattern of
        Inl e \<Rightarrow> (Inl e, w)
      | Inr pattern \<Rightarrow>
          (case re_search L pattern filename of
             None \<Rightarrow> (Inr None, logging (Error_No_match filename regex_pattern) w)
           | Some groups \<Rightarrow>
               (let date_str = concat (map py_str groups)
                in case strptime L date_str datetime_format of
                     Inr date_obj \<Rightarrow> (Inr (Some date_obj), w)
                   | Inl ValueError \<Rightarrow>
                       (Inr None,
                        logging (Error_Fail_convert filename regex_pattern date_str
                                   datetime_format ValueError) w)
                   | Inl e \<Rightarrow> (Inl e, w))))"

section \<open>Mover: \<^verbatim>\<open>move_files_to_s3\<close>\<close>

text \<open>The body of the \<^verbatim>\<open>try\<close> block.\<close>

definition move_try :: "string \<Rightarrow> string \<Rightarrow> world \<Rightarrow> (exn + unit) \<times> world" where
  "move_try source_path destination_dir w =
     (case parse_s3_uri source_path of
        Inl e \<Rightarrow> (Inl e, w)
      | Inr (source_bucket, source_key) \<Rightarrow>
          (case parse_s3_uri destination_dir of
             Inl e \<Rightarrow> (Inl e, w)
           | Inr (dest_bucket, dest_dir) \<Rightarrow>
               (let dest_key = path_join dest_dir (basename source_key);
                    w1 = logging (Debug_Moving source_path (path_join dest_bucket dest_key)) w
                in case copy_object dest_bucket dest_key source_path w1 of
                     (Inl e, w2) \<Rightarrow> (Inl e, w2)
                   | (Inr u, w2) \<Rightarrow> delete_object source_bucket source_key w2)))"

text \<open>\<^verbatim>\<open>except Exception as e: logging.error(...)\<close>; the function returns \<^verbatim>\<open>None\<close>.\<close>

definition move_files_to_s3 :: "string \<Rightarrow> string \<Rightarrow> world \<Rightarrow> (exn + unit) \<times> world" where
  "move_files_to_s3 source_path destination_dir w =
     (case move_try source_path destination_dir w of
        (Inl e, w1) \<Rightarrow> (Inr (), logging (Error_Moving source_path destination_dir e) w1)
      | (Inr u, w1) \<Rightarrow> (Inr (), w1))"

section \<open>Paginator: the generator \<^verbatim>\<open>list_s3_get_files\<close>\<close>

text \<open>
  A generator is its suspended state: not yet started, suspended at the
  \<^verbatim>\<open>yield\<close> with its local variables, or finished. A pull runs the body up to
  the next \<^verbatim>\<open>yield\<close> (\<open>Inr (Some page)\<close>), to its end (\<open>Inr None\<close>) or to an
  exception.
\<close>

datatype gen = Gen_Created | Gen_Suspended string string int | Gen_Done

definition list_s3_loop ::
  "string \<Rightarrow> string \<Rightarrow> int \<Rightarrow> int \<Rightarrow> int \<Rightarrow> world \<Rightarrow> (exn + string list option) \<times> gen \<times> world" where
  "list_s3_loop s3_bucket s3_directory n_keys n_loops count_loop w =
     (if count_loop \<le> n_loops
      then (case list_objects_v2 s3_bucket s3_directory n_keys w of
              (Inl e, w1) \<Rightarrow> (Inl e, Gen_Done, w1)
            | (Inr contents, w1) \<Rightarrow>
                if contents = [] then (Inr None, Gen_Done, logging Warning_Empty_set w1)
                else (let paths = map (path_join s3_bucket)
                                    (filter (\<lambda>k. \<not> endswith_slash k) contents)
                      in if length paths = 0
                         then (Inr None, Gen_Done, logging Warning_No_files_left w1)
                         else (Inr (Some paths),
                               Gen_Suspended s3_bucket s3_directory (count_loop + 1),
                               logging (Info_Loop count_loop n_loops (length contents)
                                          (length paths)) w1)))
      else (Inr None, Gen_Done, w))"

definition list_s3_get_files ::
  "string \<Rightarrow> int \<Rightarrow> int \<Rightarrow> gen \<Rightarrow> world \<Rightarrow> (exn + string list option) \<times> gen \<times> world" where
  "list_s3_get_files s3_path n_keys n_loops g w =
     (case g of
        Gen_Created \<Rightarrow>
          (case parse_s3_uri s3_path of
             Inl e \<Rightarrow> (Inl e, Gen_Done, w)
           | Inr (s3_bucket, s3_directory) \<Rightarrow>
               list_s3_loop s3_bucket s3_directory n_keys n_loops 1 w)
      | Gen_Suspended s3_bucket s3_directory count_loop \<Rightarrow>
          list_s3_loop s3_bucket s3_directory n_keys n_loops count_loop w
      | Gen_Done \<Rightarrow> (Inr None, Gen_Done, w))"

text \<open>The number of pulls a generator can still answer with a page.\<close>

definition gen_budget :: "int \<Rightarrow> gen \<Rightarrow> nat" where
  "gen_budget n_loops g =
     (case g of
        Gen_Created \<Rightarrow> nat n_loops + 2
      | Gen_Suspended b d c \<Rightarrow> nat (n_loops - c + 1) + 1
      | Gen_Done \<Rightarrow> 0)"

section \<open>Engine: \<^verbatim>\<open>start_segregation\<close> and the script's exit status\<close>

record config =
  s3_dir :: string
  s3_segregated_dir :: string
  s3_error_dir :: string
  match_pattern :: "string option"
  datetime_format :: string
  time_delay :: int
  n_keys :: int
  n_loops :: int
  n_workers :: int

text \<open>\<^verbatim>\<open>not match_pattern\<close>: the key is absent (or its element empty) or the text is empty.\<close>

definition no_pattern :: "string option \<Rightarrow> bool" where
  "no_pattern mp = (case mp of None \<Rightarrow> True | Some s \<Rightarrow> s = [])"

text \<open>Lines 329 to 336: the date of one listed file.\<close>

definition file_date ::
  "'p pylib \<Rightarrow> config \<Rightarrow> datetime \<Rightarrow> string \<Rightarrow> world \<Rightarrow> (exn + datetime option) \<times> world" where
  "file_date L cfg default_date file w =
     (if no_pattern (match_pattern cfg) then (Inr (Some default_date), w)
      else extract_datetime_from_filename L (basename file) (the (match_pattern cfg))
             (datetime_format cfg) w)"

text \<open>Lines 338 to 342: the directory a file with that date is moved to.\<close>

definition destination_dir :: "'p pylib \<Rightarrow> config \<Rightarrow> datetime option \<Rightarrow> string" where
  "destination_dir L cfg d =
     (case d of
        None \<Rightarrow> s3_error_dir cfg
      | Some date \<Rightarrow> strftime L date (s3_segregated_dir cfg))"

text \<open>
  The inner loop over one page and \<^verbatim>\<open>wait(futures)\<close>: one task per file. The
  result of a task stays in its future and is never read. An exception of the
  classification leaves the loop; the tasks already submitted have run.
\<close>

fun submit_files ::
  "'p pylib \<Rightarrow> config \<Rightarrow> datetime \<Rightarrow> string list \<Rightarrow> world \<Rightarrow> (exn + unit) \<times> world" where
  "submit_files L cfg default_date [] w = (Inr (), w)"
| "submit_files L cfg default_date (file # files) w =
     (case file_date L cfg default_date file w of
        (Inl e, w1) \<Rightarrow> (Inl e, w1)
      | (Inr d, w1) \<Rightarrow>
          submit_files L cfg default_date files
            (snd (move_files_to_s3 file (destination_dir L cfg d) w1)))"

lemma list_s3_loop_budget:
  "list_s3_loop b d nk nl c w = (Inr (Some page), g', w') \<Longrightarrow>
   gen_budget nl g' < nat (nl - c + 1) + 1"
  by (auto simp: list_s3_loop_def gen_budget_def Let_def
           split: if_splits prod.splits sum.splits)

lemma list_s3_get_files_budget:
  "list_s3_get_files p nk nl g w = (Inr (Some page), g', w') \<Longrightarrow>
   gen_budget nl g' < gen_budget nl g"
  by (cases g)
     (auto simp: list_s3_get_files_def gen_budget_def[of nl Gen_Created]
                 gen_budget_def[of nl "Gen_Suspended x y z" for x y z]
           split: sum.splits prod.splits dest!: list_s3_loop_budget)

text \<open>The outer \<^verbatim>\<open>for files in list_s3_get_files(...)\<close> loop.\<close>

function for_pages ::
  "'p pylib \<Rightarrow> config \<Rightarrow> datetime \<Rightarrow> gen \<Rightarrow> world \<Rightarrow> (exn + unit) \<times> world" where
  "for_pages L cfg default_date g w =
     (case list_s3_get_files (s3_dir cfg) (n_keys cfg) (n_loops cfg) g w of
        (Inl e, g1, w1) \<Rightarrow> (Inl e, w1)
      | (Inr None, g1, w1) \<Rightarrow> (Inr (), w1)
      | (Inr (Some files), g1, w1) \<Rightarrow>
          (case submit_files L cfg default_date files w1 of
             (Inl e, w2) \<Rightarrow> (Inl e, w2)
           | (Inr u, w2) \<Rightarrow> for_pages L cfg default_date g1 w2))"
  by pat_completeness auto
termination
  by (relation "measure (\<lambda>(L, cfg, dd, g, w). gen_budget (n_loops cfg) g)")
     (auto dest: list_s3_get_files_budget[OF sym])

declare for_pages.simps [simp del]

text \<open>
  \<^verbatim>\<open>start_segregation\<close>; \<open>now\<close> is the value of its one call of
  \<^verbatim>\<open>datetime.now()\<close>. The pool's constructor raises \<open>ValueError\<close> for
  \<^verbatim>\<open>max_workers <= 0\<close>.
\<close>

definition start_segregation ::
  "'p pylib \<Rightarrow> config \<Rightarrow> datetime \<Rightarrow> world \<Rightarrow> (exn + unit) \<times> world" where
  "start_segregation L cfg now w =
     (case minus_seconds L now (time_delay cfg) of
        Inl e \<Rightarrow> (Inl e, w)
      | Inr default_date \<Rightarrow>
          (case (if n_workers cfg \<le> 0 then (Inl ValueError, w)
                 else for_pages L cfg default_date Gen_Created w) of
             (Inl e, w1) \<Rightarrow> (Inr (), logging (Error_Run e) w1)
           | (Inr u, w1) \<Rightarrow> (Inr (), w1)))"

text \<open>
  The script from the call of \<^verbatim>\<open>start_segregation\<close> on: the interpreter exits with
  status 1 on an uncaught exception and with status 0 at the end of the script.
\<close>

definition main_exit_status :: "'p pylib \<Rightarrow> config \<Rightarrow> datetime \<Rightarrow> world \<Rightarrow> int \<times> world" where
  "main_exit_status L cfg now w =
     (case start_segregation L cfg now w of
        (Inl e, w1) \<Rightarrow> (1, w1)
      | (Inr u, w1) \<Rightarrow> (0, w1))"

section \<open>An executable library\<close>

text \<open>
  The library \<open>py\<close> computes a fragment of \<^verbatim>\<open>re\<close> and of \<^verbatim>\<open>datetime\<close>
  on strings of characters below 256, enough to run the repository's tests. Patterns:
  literal characters, \<^verbatim>\<open>.\<close>, \<^verbatim>\<open>\d\<close>, escaped punctuation, \<^verbatim>\<open>^\<close>,
  \<^verbatim>\<open>$\<close>, \<^verbatim>\<open>|\<close>, capture groups, and the greedy quantifiers \<^verbatim>\<open>*\<close>,
  \<^verbatim>\<open>+\<close>, \<^verbatim>\<open>?\<close>, \<^verbatim>\<open>{n}\<close> (the first two on a body that cannot match the
  empty string). Formats: \<^verbatim>\<open>%Y %m %d %H %M %S %%\<close> and literal ASCII characters
  other than whitespace. On anything else \<open>py\<close> answers \<open>NotModelled\<close>.
\<close>

subsection \<open>Regular expressions: a backtracking matcher\<close>

datatype re =
    Eps
  | Chr char
  | Dot
  | Cls string
  | Bol
  | Eol
  | Seq re re
  | Alt re re
  | Star re
  | Group nat re

text \<open>
  A matcher state is the position, the rest of the subject and the groups captured so
  far. \<open>re_match r st\<close> lists the states after every way of matching \<open>r\<close> from
  \<open>st\<close>, in the order a backtracking matcher tries them; a greedy star tries one
  more iteration first.
\<close>

type_synonym mstate = "nat \<times> string \<times> string option list"

function (sequential) re_match :: "re \<Rightarrow> mstate \<Rightarrow> mstate list" where
  "re_match Eps st = [st]"
| "re_match (Chr c) (i, s, gs) =
     (case s of [] \<Rightarrow> [] | x # xs \<Rightarrow> if x = c then [(i + 1, xs, gs)] else [])"
| "re_match Dot (i, s, gs) =
     (case s of [] \<Rightarrow> [] | x # xs \<Rightarrow> if x \<noteq> CHR 0x0A then [(i + 1, xs, gs)] else [])"
| "re_match (Cls A) (i, s, gs) =
     (case s of [] \<Rightarrow> [] | x # xs \<Rightarrow> if x \<in> set A then [(i + 1, xs, gs)] else [])"
| "re_match Bol (i, s, gs) = (if i = 0 then [(i, s, gs)] else [])"
| "re_match Eol (i, s, gs) = (if s = [] \<or> s = [CHR 0x0A] then [(i, s, gs)] else [])"
| "re_match (Seq a b) st = concat (map (re_match b) (re_match a st))"
| "re_match (Alt a b) st = re_match a st @ re_match b st"
| "re_match (Star a) (i, s, gs) =
     concat (map (\<lambda>st'. if length (fst (snd st')) < length s then re_match (Star a) st' else [])
               (re_match a (i, s, gs))) @ [(i, s, gs)]"
| "re_match (Group n a) (i, s, gs) =
     map (\<lambda>st'. (fst st', fst (snd st'), (snd (snd st'))[n := Some (take (fst st' - i) s)]))
       (re_match a (i, s, gs))"
  by pat_completeness auto
termination
  by (relation "measures [\<lambda>(r, st). size r, \<lambda>(r, st). length (fst (snd st))]") auto

text \<open>\<^verbatim>\<open>search\<close>: the first match at the leftmost position that has one.\<close>

fun search_from :: "re \<Rightarrow> nat \<Rightarrow> nat \<Rightarrow> string \<Rightarrow> string option list option" where
  "search_from r n i [] =
     (case re_match r (i, [], replicate n None) of
        [] \<Rightarrow> None | st # _ \<Rightarrow> Some (snd (snd st)))"
| "search_from r n i (x # xs) =
     (case re_match r (i, x # xs, replicate n None) of
        [] \<Rightarrow> search_from r n (i + 1) xs | st # _ \<Rightarrow> Some (snd (snd st)))"

subsection \<open>Regular expressions: the pattern parser\<close>

definition digit :: re where
  "digit = Cls ''0123456789''"

fun rep :: "nat \<Rightarrow> re \<Rightarrow> re" where
  "rep 0 r = Eps"
| "rep (Suc n) r = Seq r (rep n r)"

fun nullable :: "re \<Rightarrow> bool" where
  "nullable Eps = True"
| "nullable (Chr c) = False"
| "nullable Dot = False"
| "nullable (Cls A) = False"
| "nullable Bol = True"
| "nullable Eol = True"
| "nullable (Seq a b) = (nullable a \<and> nullable b)"
| "nullable (Alt a b) = (nullable a \<or> nullable b)"
| "nullable (Star a) = True"
| "nullable (Group n a) = nullable a"

definition is_digit :: "char \<Rightarrow> bool" where
  "is_digit c = (c \<in> set ''0123456789'')"

definition is_letter :: "char \<Rightarrow> bool" where
  "is_letter c = (c \<in> set ''abcdefghijklmnopqrstuvwxyzABCDEFGHIJKLMNOPQRSTUVWXYZ'')"

definition digit_val :: "char \<Rightarrow> nat" where
  "digit_val c = length (takeWhile (\<lambda>d. d \<noteq> c) ''0123456789'')"

text \<open>
  One frame per open group: its index, the finished alternatives and the items of the
  current alternative, both latest first.
\<close>

datatype frame = Frame nat "re list" "re list"

datatype pmode = Normal | Escape | Count "nat option"

datatype prev = Atom | Quantified | Opened | Nothing

definition seq_of :: "re list \<Rightarrow> re" where
  "seq_of items = foldl (\<lambda>acc r. Seq r acc) Eps items"

definition alt_of :: "re list \<Rightarrow> re list \<Rightarrow> re" where
  "alt_of alts items = foldl (\<lambda>acc a. Alt a acc) (seq_of items) alts"

definition push_item :: "re \<Rightarrow> frame list \<Rightarrow> frame list" where
  "push_item r st =
     (case st of [] \<Rightarrow> [] | Frame g alts items # st' \<Rightarrow> Frame g alts (r # items) # st')"

text \<open>The quantifier \<open>c\<close> applied to the last item of the top frame.\<close>

definition quantify :: "(re \<Rightarrow> re) \<Rightarrow> frame list \<Rightarrow> frame list" where
  "quantify f st =
     (case st of
        Frame g alts (it # items) # st' \<Rightarrow> Frame g alts (f it # items) # st'
      | _ \<Rightarrow> st)"

definition last_item :: "frame list \<Rightarrow> re" where
  "last_item st = (case st of Frame g alts (it # items) # st' \<Rightarrow> it | _ \<Rightarrow> Eps)"

fun re_parse :: "string \<Rightarrow> pmode \<Rightarrow> prev \<Rightarrow> frame list \<Rightarrow> nat \<Rightarrow> exn + (re \<times> nat)" where
  "re_parse [] mode p st n =
     (case mode of
        Normal \<Rightarrow>
          (case st of
             [Frame g alts items] \<Rightarrow> Inr (alt_of alts items, n)
           | _ \<Rightarrow> Inl ReError)
      | Escape \<Rightarrow> Inl ReError
      | Count k \<Rightarrow> Inl NotModelled)"
| "re_parse (c # cs) mode p st n =
     (case mode of
        Escape \<Rightarrow>
          if c = CHR ''d'' then re_parse cs Normal Atom (push_item digit st) n
          else if is_letter c \<or> is_digit c then Inl NotModelled
          else re_parse cs Normal Atom (push_item (Chr c) st) n
      | Count k \<Rightarrow>
          if is_digit c
          then (let v = 10 * (case k of None \<Rightarrow> 0 | Some v \<Rightarrow> v) + digit_val c
                in if v > 1000 then Inl NotModelled else re_parse cs (Count (Some v)) p st n)
          else if c = CHR ''}'' \<and> k \<noteq> None
          then (case p of
                  Atom \<Rightarrow> re_parse cs Normal Quantified (quantify (rep (the k)) st) n
                | Quantified \<Rightarrow> Inl NotModelled
                | _ \<Rightarrow> Inl ReError)
          else Inl NotModelled
      | Normal \<Rightarrow>
          if c = CHR 0x5C then re_parse cs Escape p st n
          else if c = CHR ''('' then re_parse cs Normal Opened (Frame n [] [] # st) (n + 1)
          else if c = CHR '')''
          then (case st of
                  Frame g alts items # st' \<Rightarrow>
                    if st' = [] then Inl ReError
                    else re_parse cs Normal Atom (push_item (Group g (alt_of alts items)) st') n
                | [] \<Rightarrow> Inl ReError)
          else if c = CHR ''|''
          then (case st of
                  Frame g alts items # st' \<Rightarrow>
                    re_parse cs Normal Nothing (Frame g (seq_of items # alts) [] # st') n
                | [] \<Rightarrow> Inl ReError)
          else if c = CHR ''*'' \<or> c = CHR ''+'' \<or> c = CHR ''?''
          then (case p of
                  Atom \<Rightarrow>
                    if c = CHR ''?''
                    then re_parse cs Normal Quantified (quantify (\<lambda>r. Alt r Eps) st) n
                    else if nullable (last_item st) then Inl NotModelled
                    else if c = CHR ''*''
                    then re_parse cs Normal Quantified (quantify Star st) n
                    else re_parse cs Normal Quantified (quantify (\<lambda>r. Seq r (Star r)) st) n
                | Quantified \<Rightarrow> Inl NotModelled
                | Opened \<Rightarrow> if c = CHR ''?'' then Inl NotModelled else Inl ReError
                | Nothing \<Rightarrow> Inl ReError)
          else if c = CHR ''{'' then re_parse cs (Count None) p st n
          else if c = CHR ''.'' then re_parse cs Normal Atom (push_item Dot st) n
          else if c = CHR ''^'' then re_parse cs Normal Nothing (push_item Bol st) n
          else if c = CHR ''$'' then re_parse cs Normal Nothing (push_item Eol st) n
          else if c = CHR ''['' \<or> c = CHR '']'' \<or> c = CHR ''}'' then Inl NotModelled
          else re_parse cs Normal Atom (push_item (Chr c) st) n)"

definition py_re_compile :: "string \<Rightarrow> exn + (re \<times> nat)" where
  "py_re_compile pattern = re_parse pattern Normal Nothing [Frame 0 [] []] 0"

definition py_re_search :: "re \<times> nat \<Rightarrow> string \<Rightarrow> string option list option" where
  "py_re_search p s = search_from (fst p) (snd p) 0 s"

subsection \<open>Datetimes: \<^verbatim>\<open>strptime\<close>\<close>

text \<open>
  \<^verbatim>\<open>strptime\<close> turns the format into a regular expression with one group per
  directive, matches it at the start of the string, refuses a match that does not reach
  the end, and builds the datetime from the groups; an invalid date is a
  \<open>ValueError\<close>, a directive used twice an \<open>ReError\<close>.
\<close>

datatype ftok = FLit char | FDir char | FStray

fun fmt_tokens :: "string \<Rightarrow> ftok list" where
  "fmt_tokens [] = []"
| "fmt_tokens [c] = (if c = CHR ''%'' then [FStray] else [FLit c])"
| "fmt_tokens (c # d # cs) =
     (if c = CHR ''%'' then FDir d # fmt_tokens cs else FLit c # fmt_tokens (d # cs))"

definition seqs :: "re list \<Rightarrow> re" where
  "seqs rs = foldr Seq rs Eps"

definition alts :: "re list \<Rightarrow> re" where
  "alts rs = foldr Alt (butlast rs) (last rs)"

definition directive_re :: "char \<Rightarrow> re" where
  "directive_re d =
     (if d = CHR ''Y'' then rep 4 digit
      else if d = CHR ''m''
      then alts [Seq (Chr CHR ''1'') (Cls ''012''), Seq (Chr CHR ''0'') (Cls ''123456789''),
                 Cls ''123456789'']
      else if d = CHR ''d''
      then alts [Seq (Chr CHR ''3'') (Cls ''01''), Seq (Cls ''12'') digit,
                 Seq (Chr CHR ''0'') (Cls ''123456789''), Cls ''123456789'',
                 Seq (Chr CHR '' '') (Cls ''123456789'')]
      else if d = CHR ''H''
      then alts [Seq (Chr CHR ''2'') (Cls ''0123''), Seq (Cls ''01'') digit, digit]
      else if d = CHR ''M''
      then alts [Seq (Cls ''012345'') digit, digit]
      else alts [Seq (Chr CHR ''6'') (Cls ''01''), Seq (Cls ''012345'') digit, digit])"

definition modelled_directives :: string where
  "modelled_directives = ''YmdHMS''"

definition to_upper :: "char \<Rightarrow> char" where
  "to_upper c =
     (case map_of (zip ''abcdefghijklmnopqrstuvwxyz'' ''ABCDEFGHIJKLMNOPQRSTUVWXYZ'') c of
        None \<Rightarrow> c | Some u \<Rightarrow> u)"

definition to_lower :: "char \<Rightarrow> char" where
  "to_lower c =
     (case map_of (zip ''ABCDEFGHIJKLMNOPQRSTUVWXYZ'' ''abcdefghijklmnopqrstuvwxyz'') c of
        None \<Rightarrow> c | Some l \<Rightarrow> l)"

definition is_space :: "char \<Rightarrow> bool" where
  "is_space c = (c \<in> set [CHR 0x09, CHR 0x0A, CHR 0x0B, CHR 0x0C, CHR 0x0D,
                            CHR 0x1C, CHR 0x1D, CHR 0x1E, CHR 0x1F, CHR 0x20])"

definition is_ascii :: "char \<Rightarrow> bool" where
  "is_ascii c = (\<not> digit7 c)"

text \<open>A token outside the fragment.\<close>

definition tok_unmodelled :: "ftok \<Rightarrow> bool" where
  "tok_unmodelled t =
     (case t of
        FLit c \<Rightarrow> is_space c \<or> \<not> is_ascii c
      | FDir d \<Rightarrow> (is_letter d \<or> d = CHR '':'') \<and> d \<notin> set modelled_directives
      | FStray \<Rightarrow> False)"

text \<open>A token on which the library raises \<open>ValueError\<close>: a stray or unknown directive.\<close>

definition tok_bad :: "ftok \<Rightarrow> bool" where
  "tok_bad t =
     (case t of
        FLit c \<Rightarrow> False
      | FDir d \<Rightarrow> d \<noteq> CHR ''%'' \<and> d \<notin> set modelled_directives
      | FStray \<Rightarrow> True)"

definition fmt_directives :: "ftok list \<Rightarrow> string" where
  "fmt_directives ts = concat (map (\<lambda>t. case t of FDir d \<Rightarrow> (if d = CHR ''%'' then [] else [d]) | _ \<Rightarrow> []) ts)"

text \<open>The regular expression of a token list; \<open>k\<close> is the index of the next group.\<close>

fun fmt_re :: "ftok list \<Rightarrow> nat \<Rightarrow> re list" where
  "fmt_re [] k = []"
| "fmt_re (FLit c # ts) k =
     (if is_letter c then Cls [to_lower c, to_upper c] else Chr c) # fmt_re ts k"
| "fmt_re (FDir d # ts) k =
     (if d = CHR ''%'' then Chr CHR ''%'' # fmt_re ts k
      else Group k (directive_re d) # fmt_re ts (k + 1))"
| "fmt_re (FStray # ts) k = fmt_re ts k"

definition int_of_digits :: "string \<Rightarrow> int" where
  "int_of_digits s = foldl (\<lambda>n c. 10 * n + int (digit_val c)) 0 (filter is_digit s)"

definition field :: "string \<Rightarrow> string option list \<Rightarrow> char \<Rightarrow> int \<Rightarrow> int" where
  "field dirs gs d dflt =
     (case map_of (zip dirs gs) d of Some (Some txt) \<Rightarrow> int_of_digits txt | _ \<Rightarrow> dflt)"

definition is_leap :: "int \<Rightarrow> bool" where
  "is_leap y = (y mod 4 = 0 \<and> (y mod 100 \<noteq> 0 \<or> y mod 400 = 0))"

definition days_in_month :: "int \<Rightarrow> int \<Rightarrow> int" where
  "days_in_month y m =
     (if m = 2 \<and> is_leap y then 29
      else [31, 28, 31, 30, 31, 30, 31, 31, 30, 31, 30, 31] ! nat (m - 1))"

text \<open>The checks of the \<^verbatim>\<open>datetime\<close> constructor.\<close>

definition valid_datetime :: "datetime \<Rightarrow> bool" where
  "valid_datetime t =
     (1 \<le> year t \<and> year t \<le> 9999 \<and> 1 \<le> month t \<and> month t \<le> 12 \<and>
      1 \<le> day t \<and> day t \<le> days_in_month (year t) (month t) \<and>
      0 \<le> hour t \<and> hour t \<le> 23 \<and> 0 \<le> minute t \<and> minute t \<le> 59 \<and>
      0 \<le> second t \<and> second t \<le> 59 \<and>
      0 \<le> microsecond t \<and> microsecond t \<le> 999999)"

definition py_strptime :: "string \<Rightarrow> string \<Rightarrow> exn + datetime" where
  "py_strptime date_string format =
     (let ts = fmt_tokens format; dirs = fmt_directives ts
      in if list_ex tok_unmodelled ts then Inl NotModelled
         else if list_ex tok_bad ts then Inl ValueError
         else if \<not> distinct dirs then Inl ReError
         else (case re_match (seqs (fmt_re ts 0)) (0, date_string, replicate (length dirs) None) of
                 [] \<Rightarrow> Inl ValueError
               | st # _ \<Rightarrow>
                   if fst (snd st) \<noteq> [] then Inl ValueError
                   else (let gs = snd (snd st);
                             t = \<lparr>year = field dirs gs CHR ''Y'' 1900,
                                  month = field dirs gs CHR ''m'' 1,
                                  day = field dirs gs CHR ''d'' 1,
                                  hour = field dirs gs CHR ''H'' 0,
                                  minute = field dirs gs CHR ''M'' 0,
                                  second = field dirs gs CHR ''S'' 0,
                                  microsecond = 0\<rparr>
                         in if valid_datetime t then Inr t else Inl ValueError)))"

subsection \<open>Datetimes: \<^verbatim>\<open>strftime\<close> and subtraction of seconds\<close>

text \<open>The decimal digits of a number that is not negative.\<close>

function dec :: "int \<Rightarrow> string" where
  "dec n = (if n < 10 then [''0123456789'' ! nat n]
            else dec (n div 10) @ [''0123456789'' ! nat (n mod 10)])"
  by pat_completeness auto
termination
  by (relation "measure nat") auto

declare dec.simps [simp del]

definition zpad :: "nat \<Rightarrow> int \<Rightarrow> string" where
  "zpad w n = replicate (w - length (dec n)) CHR ''0'' @ dec n"

definition fmt_out :: "datetime \<Rightarrow> ftok \<Rightarrow> string" where
  "fmt_out t tok =
     (case tok of
        FLit c \<Rightarrow> [c]
      | FStray \<Rightarrow> ''%''
      | FDir d \<Rightarrow>
          if d = CHR ''Y'' then zpad 4 (year t)
          else if d = CHR ''m'' then zpad 2 (month t)
          else if d = CHR ''d'' then zpad 2 (day t)
          else if d = CHR ''H'' then zpad 2 (hour t)
          else if d = CHR ''M'' then zpad 2 (minute t)
          else if d = CHR ''S'' then zpad 2 (second t)
          else if d = CHR ''%'' then ''%''
          else [CHR ''%'', d])"

definition py_strftime :: "datetime \<Rightarrow> string \<Rightarrow> string" where
  "py_strftime t format = concat (map (fmt_out t) (fmt_tokens format))"

definition days_before_year :: "int \<Rightarrow> int" where
  "days_before_year y = (y - 1) * 365 + (y - 1) div 4 - (y - 1) div 100 + (y - 1) div 400"

definition days_before_month :: "int \<Rightarrow> int \<Rightarrow> int" where
  "days_before_month y m = sum_list (map (days_in_month y) [1..m - 1])"

definition to_seconds :: "datetime \<Rightarrow> int" where
  "to_seconds t =
     (days_before_year (year t) + days_before_month (year t) (month t) + day t - 1) * 86400
     + hour t * 3600 + minute t * 60 + second t"

text \<open>The year and the day within it (from 0) of a day count from 0001-01-01.\<close>

definition year_of_days :: "int \<Rightarrow> int \<times> int" where
  "year_of_days n =
     (let n400 = n div 146097; r400 = n mod 146097;
          n100 = r400 div 36524; r100 = r400 mod 36524;
          n4 = r100 div 1461; r4 = r100 mod 1461;
          n1 = r4 div 365; r1 = r4 mod 365;
          y = n400 * 400 + n100 * 100 + n4 * 4 + n1 + 1
      in if n1 = 4 \<or> n100 = 4 then (y - 1, 365) else (y, r1))"

text \<open>The month and day of the day \<open>d\<close> (from 0) of year \<open>y\<close>, counted from month \<open>m\<close>.\<close>

fun month_of_days :: "int \<Rightarrow> nat \<Rightarrow> int \<Rightarrow> int \<Rightarrow> int \<times> int" where
  "month_of_days y 0 m d = (m, d + 1)"
| "month_of_days y (Suc fuel) m d =
     (if d < days_in_month y m then (m, d + 1)
      else month_of_days y fuel (m + 1) (d - days_in_month y m))"

definition of_seconds :: "int \<Rightarrow> int \<Rightarrow> datetime" where
  "of_seconds s us =
     (let n = s div 86400; r = s mod 86400;
          yd = year_of_days n; md = month_of_days (fst yd) 11 1 (snd yd)
      in \<lparr>year = fst yd, month = fst md, day = snd md,
          hour = r div 3600, minute = (r mod 3600) div 60, second = r mod 60,
          microsecond = us\<rparr>)"

text \<open>
  \<^verbatim>\<open>t - timedelta(seconds=n)\<close>: \<open>OverflowError\<close> when the result leaves the years
  1 to 9999.
\<close>

definition py_minus_seconds :: "datetime \<Rightarrow> int \<Rightarrow> exn + datetime" where
  "py_minus_seconds t n =
     (let s = to_seconds t - n
      in if s < 0 \<or> s \<ge> 3652059 * 86400 then Inl OverflowError
         else Inr (of_seconds s (microsecond t)))"

definition py :: "(re \<times> nat) pylib" where
  "py = \<lparr>re_compile = py_re_compile, re_search = py_re_search, strptime = py_strptime,
         strftime = py_strftime, minus_seconds = py_minus_seconds\<rparr>"

text \<open>The backslash, which a string literal cannot hold.\<close>

definition bsl :: char where
  "bsl = CHR 0x5C"

section \<open>Example inputs\<close>

text \<open>The empty store with no fault scheduled, and the inputs of the repository's tests.\<close>

definition w0 :: world where
  "w0 = \<lparr>objects = [], faults = [], calls = [], logged = []\<rparr>"

definition cdr_pattern :: string where
  "cdr_pattern = ''CHARGINGCDR_.*-('' @ bsl # ''d{8})-.*.ber''"


definition cdr_file :: string where
  "cdr_file = ''CHARGINGCDR_4008-BROCC3-20240901-234125-56908.ber''"

definition sep_2024 :: datetime where
  "sep_2024 = \<lparr>year = 2024, month = 9, day = 1, hour = 0, minute = 0, second = 0,
                microsecond = 0\<rparr>"

definition cfg0 :: config where
  "cfg0 = \<lparr>s3_dir = ''s3://bucket/in/'', s3_segregated_dir = ''s3://bucket/seg/%Y/%m/%d/'',
           s3_error_dir = ''s3://bucket/err/'', match_pattern = Some cdr_pattern,
           datetime_format = ''%Y%m%d'', time_delay = 86400, n_keys = 500, n_loops = 10,
           n_workers = 2\<rparr>"

definition now0 :: datetime where
  "now0 = \<lparr>year = 2024, month = 9, day = 2, hour = 0, minute = 30, second = 0,
             microsecond = 0\<rparr>"

definition default0 :: datetime where
  "default0 = \<lparr>year = 2024, month = 9, day = 1, hour = 0, minute = 30, second = 0,
                 microsecond = 0\<rparr>"

definition cdr_small :: string where
  "cdr_small = ''CHARGINGCDR_x-20240901-y.ber''"

text \<open>A store with a folder marker, a file the pattern dates and one it does not match.\<close>

definition w_in :: world where
  "w_in = \<lparr>objects = [((''bucket'', ''in/''), []),
                        ((''bucket'', ''in/'' @ cdr_small), ''cdr''),
                        ((''bucket'', ''in/report.txt''), ''txt'')],
            faults = [], calls = [], logged = []\<rparr>"

section \<open>Notions used to state the properties\<close>

text \<open>
  The classification of a run cannot raise: no pattern is configured, or the pattern
  compiles and \<^verbatim>\<open>strptime\<close> raises nothing but \<open>ValueError\<close> under the format.
\<close>

definition classification_safe :: "'p pylib \<Rightarrow> config \<Rightarrow> bool" where
  "classification_safe L cfg =
     (no_pattern (match_pattern cfg)
      \<or> ((\<exists>p. re_compile L (the (match_pattern cfg)) = Inr p)
          \<and> (\<forall>s e. strptime L s (datetime_format cfg) = Inl e \<longrightarrow> e = ValueError)))"

text \<open>What the loop body does to the state for one file when the classification returns.\<close>

definition file_step :: "'p pylib \<Rightarrow> config \<Rightarrow> datetime \<Rightarrow> world \<Rightarrow> string \<Rightarrow> world" where
  "file_step L cfg default_date w file =
     (let dw = file_date L cfg default_date file w
      in snd (move_files_to_s3 file (destination_dir L cfg (projr (fst dw))) (snd dw)))"

text \<open>
  The pages a consumer obtains from a fresh or suspended generator by pulling until the
  generator ends or raises; \<open>use\<close> is what the consumer does to the state with each
  page before the next pull.
\<close>

function pages_pulled ::
  "(string list \<Rightarrow> world \<Rightarrow> world) \<Rightarrow> string \<Rightarrow> int \<Rightarrow> int \<Rightarrow> gen \<Rightarrow> world \<Rightarrow> string list list" where
  "pages_pulled use s3_path nk nl g w =
     (case list_s3_get_files s3_path nk nl g w of
        (Inr (Some page), g1, w1) \<Rightarrow> page # pages_pulled use s3_path nk nl g1 (use page w1)
      | (Inr None, g1, w1) \<Rightarrow> []
      | (Inl e, g1, w1) \<Rightarrow> [])"
  by pat_completeness auto
termination
  by (relation "measure (\<lambda>(use, p, nk, nl, g, w). gen_budget nl g)")
     (auto dest: list_s3_get_files_budget[OF sym])

declare pages_pulled.simps [simp del]

text \<open>The pages a generator in state \<open>g\<close> can still yield.\<close>

definition pages_left :: "int \<Rightarrow> gen \<Rightarrow> nat" where
  "pages_left nl g =
     (case g of
        Gen_Created \<Rightarrow> nat nl
      | Gen_Suspended b d c \<Rightarrow> nat (nl - c + 1)
      | Gen_Done \<Rightarrow> 0)"

definition real_files :: "string list \<Rightarrow> string list" where
  "real_files ks = filter (\<lambda>k. \<not> endswith_slash k) ks"

text \<open>
  The concatenation of the texts of the capture groups as the specification words it: a
  group that took no part in the match has no text.
\<close>

definition spec_group_texts :: "string option list \<Rightarrow> string" where
  "spec_group_texts gs = concat (map (\<lambda>g. case g of None \<Rightarrow> [] | Some s \<Rightarrow> s) gs)"

definition opt_pattern :: string where
  "opt_pattern = ''('' @ bsl # ''d{4})(x)?''"

definition jan_2024 :: datetime where
  "jan_2024 = \<lparr>year = 2024, month = 1, day = 1, hour = 0, minute = 0, second = 0,
                microsecond = 0\<rparr>"


text \<open>A store with an object whose key holds the scheme text, and the key without it.\<close>

definition w_scheme :: world where
  "w_scheme = \<lparr>objects = [((''bucket'', ''in/s3://x''), ''A''), ((''bucket'', ''in/x''), ''B'')],
                faults = [], calls = [], logged = []\<rparr>"

text \<open>
  A recorded call is no copy, or it is a copy whose destination is the directory
  \<open>dst\<close> joined with the base name of the source key.
\<close>

definition copy_goes_to :: "string \<Rightarrow> s3_call \<times> bool \<Rightarrow> bool" where
  "copy_goes_to dst c =
     (case fst c of
        CopyObject b k src \<Rightarrow>
          (case parse_s3_uri dst of
             Inl e \<Rightarrow> False
           | Inr dloc \<Rightarrow>
               (case parse_s3_uri src of
                  Inl e \<Rightarrow> False
                | Inr sloc \<Rightarrow> b = fst dloc \<and> k = path_join (snd dloc) (basename (snd sloc))))
      | _ \<Rightarrow> True)"

text \<open>The calls a step added to the history all satisfy \<open>P\<close>.\<close>

definition added_calls :: "(s3_call \<times> bool \<Rightarrow> bool) \<Rightarrow> world \<Rightarrow> world \<Rightarrow> bool" where
  "added_calls P w w' = (\<exists>tr. calls w' = calls w @ tr \<and> list_all P tr)"

text \<open>A configuration with no classification pattern.\<close>

definition cfg_plain :: config where
  "cfg_plain = cfg0\<lparr>match_pattern := None\<rparr>"




section \<open>Properties of the locator parser\<close>

lemma parse_s3_uri_split:
  "parse_s3_uri p =
     (let r = str_replace ''s3://'' '''' p
      in if CHR ''/'' \<in> set r
         then Inr (takeWhile (\<lambda>c. c \<noteq> CHR ''/'') r, tl (dropWhile (\<lambda>c. c \<noteq> CHR ''/'') r))
         else Inl ValueError)"
  by (simp add: parse_s3_uri_def str_split1_def Let_def)

lemma parse_s3_uri_fails_iff:
  "(parse_s3_uri p = Inl ValueError) = (CHR ''/'' \<notin> set (str_replace ''s3://'' '''' p))"
  by (simp add: parse_s3_uri_split Let_def)

text \<open>
  C9. The parser is claimed to strip the scheme prefix and split the remainder at the
  first separator. On the locator \<^verbatim>\<open>s3://bucket/a/s3://b\<close> the code returns the key
  \<^verbatim>\<open>a/b\<close>: \<^verbatim>\<open>replace\<close> removes the scheme text wherever it occurs, while
  the parser of the specification returns the key \<^verbatim>\<open>a/s3://b\<close>.
\<close>

theorem parse_s3_uri_removes_inner_scheme:
  "parse_s3_uri ''s3://bucket/a/s3://b'' = Inr (''bucket'', ''a/b'')
   \<and> spec_parse ''s3://bucket/a/s3://b'' = Inr (''bucket'', ''a/s3://b'')
   \<and> parse_s3_uri ''bucket/a/s3://b'' = Inr (''bucket'', ''a/b'')"
  by (simp add: parse_s3_uri_def spec_parse_def str_split1_def)

section \<open>Properties of the date extractor\<close>

lemma spec_group_texts_participating:
  "list_all (\<lambda>g. g \<noteq> None) gs \<Longrightarrow> concat (map py_str gs) = spec_group_texts gs"
  by (induction gs) (auto simp: py_str_def spec_group_texts_def)

text \<open>
  C1, as stated, fails when a capture group takes no part in the match. The pattern
  \<^verbatim>\<open>(\d{4})(x)?\<close> matches the file name \<^verbatim>\<open>a2024\<close> with the groups \<^verbatim>\<open>2024\<close> and
  \<^verbatim>\<open>None\<close>; the texts of the groups give \<^verbatim>\<open>2024\<close>, which parses under \<^verbatim>\<open>%Y\<close>,
  but the function parses \<^verbatim>\<open>2024None\<close> and returns \<^verbatim>\<open>None\<close>.
\<close>

theorem extract_parses_text_none:
  "re_search py (projr (re_compile py opt_pattern)) ''a2024'' = Some [Some ''2024'', None]
   \<and> strptime py (spec_group_texts [Some ''2024'', None]) ''%Y'' = Inr jan_2024
   \<and> extract_datetime_from_filename py ''a2024'' opt_pattern ''%Y'' w0
       = (Inr None,
          logging (Error_Fail_convert ''a2024'' opt_pattern ''2024None'' ''%Y'' ValueError) w0)"
  by code_simp

text \<open>
  C1, amended. When the pattern compiles, its search matches the file name with every
  capture group taking part, and the concatenation of the texts of the groups, in group
  order without a separator, parses under the format, the extractor returns exactly the
  parsed timestamp and logs nothing.
\<close>

theorem extract_returns_parsed_timestamp:
  assumes "re_compile L regex_pattern = Inr p"
    and "re_search L p filename = Some gs"
    and "list_all (\<lambda>g. g \<noteq> None) gs"
    and "strptime L (spec_group_texts gs) fmt = Inr ts"
  shows "extract_datetime_from_filename L filename regex_pattern fmt w = (Inr (Some ts), w)"
  using assms
  by (simp add: extract_datetime_from_filename_def spec_group_texts_participating)

theorem extract_returns_parsed_timestamp_witness:
  "re_search py (projr (re_compile py cdr_pattern)) cdr_file = Some [Some ''20240901'']
   \<and> spec_group_texts [Some ''20240901''] = ''20240901''
   \<and> strptime py ''20240901'' ''%Y%m%d'' = Inr sep_2024
   \<and> extract_datetime_from_filename py cdr_file cdr_pattern ''%Y%m%d'' w0
        = (Inr (Some sep_2024), w0)"
proof -
  have c: "re_compile py cdr_pattern = Inr (projr (re_compile py cdr_pattern))"
    by code_simp
  have s: "re_search py (projr (re_compile py cdr_pattern)) cdr_file = Some [Some ''20240901'']"
    by code_simp
  have a: "list_all (\<lambda>g. g \<noteq> None) [Some ''20240901'']"
    by simp
  have g: "spec_group_texts [Some ''20240901''] = ''20240901''"
    by code_simp
  have t: "strptime py (spec_group_texts [Some ''20240901'']) ''%Y%m%d'' = Inr sep_2024"
    by code_simp
  have t': "strptime py ''20240901'' ''%Y%m%d'' = Inr sep_2024"
    by code_simp
  show ?thesis
    using extract_returns_parsed_timestamp [OF c s a t, of w0] s g t' by simp
qed


section \<open>Properties of routing and of the mover\<close>

lemma map_of_filter_key:
  "map_of (filter (\<lambda>e. fst e \<noteq> k) xs) loc = (if loc = k then None else map_of xs loc)"
  by (induction xs) auto

lemma take_fault_keeps:
  "objects (snd (take_fault w)) = objects w"
  "calls (snd (take_fault w)) = calls w"
  "logged (snd (take_fault w)) = logged w"
  by (simp_all add: take_fault_def split: list.splits)

lemma copy_object_cases:
  assumes "copy_object B K src w = (r, w')"
  shows "(r = Inl BotoError \<and> objects w' = objects w
            \<and> calls w' = calls w @ [(CopyObject B K src, False)] \<and> logged w' = logged w)
         \<or> (r = Inr () \<and> calls w' = calls w @ [(CopyObject B K src, True)]
              \<and> logged w' = logged w \<and> copy_source_loc src \<noteq> (B, K)
              \<and> (\<exists>v. lookup_object w (copy_source_loc src) = Some v
                    \<and> (\<forall>loc. lookup_object w' loc
                               = (if loc = (B, K) then Some v else lookup_object w loc))))"
  using assms
  by (auto simp: copy_object_def Let_def record_call_def take_fault_keeps lookup_object_def
                 map_of_filter_key
           split: if_splits option.splits)

lemma delete_object_cases:
  assumes "delete_object B K w = (r, w')"
  shows "(r = Inl BotoError \<and> objects w' = objects w
            \<and> calls w' = calls w @ [(DeleteObject B K, False)] \<and> logged w' = logged w)
         \<or> (r = Inr () \<and> calls w' = calls w @ [(DeleteObject B K, True)]
              \<and> logged w' = logged w
              \<and> (\<forall>loc. lookup_object w' loc
                         = (if loc = (B, K) then None else lookup_object w loc)))"
  using assms
  by (auto simp: delete_object_def Let_def record_call_def take_fault_keeps lookup_object_def
                 map_of_filter_key
           split: if_splits)

lemma logging_keeps:
  "objects (logging r w) = objects w" "calls (logging r w) = calls w"
  "faults (logging r w) = faults w" "logged (logging r w) = logged w @ [r]"
  "lookup_object (logging r w) loc = lookup_object w loc"
  by (simp_all add: logging_def lookup_object_def)



lemma move_outcomes:
  assumes "move_files_to_s3 source_path dst w = (r, w')"
  shows "r = Inr ()
         \<and> (\<exists>tr. calls w' = calls w @ tr
               \<and> (tr = [] \<and> objects w' = objects w
                   \<or> (\<exists>b d sb sk.
                         parse_s3_uri dst = Inr (b, d) \<and> parse_s3_uri source_path = Inr (sb, sk)
                         \<and> (tr = [(CopyObject b (path_join d (basename sk)) source_path, False)]
                               \<and> objects w' = objects w
                             \<or> (\<exists>ok. tr = [(CopyObject b (path_join d (basename sk)) source_path, True),
                                             (DeleteObject sb sk, ok)]
                                   \<and> (\<forall>v. lookup_object w (copy_source_loc source_path) = Some v
                                         \<longrightarrow> lookup_object w' (copy_source_loc source_path) = Some v
                                             \<or> lookup_object w' (b, path_join d (basename sk))
                                                 = Some v))))))"
proof -
  obtain r0 w1 where mt: "move_try source_path dst w = (r0, w1)"
    by (cases "move_try source_path dst w")
  have res: "r = Inr ()" and w': "calls w' = calls w1" "objects w' = objects w1"
      "\<And>loc. lookup_object w' loc = lookup_object w1 loc"
    using assms mt
    by (auto simp: move_files_to_s3_def logging_keeps split: sum.splits)
  show ?thesis
  proof (cases "parse_s3_uri source_path")
    case (Inl e)
    with mt have "w1 = w" by (simp add: move_try_def)
    with res w' show ?thesis by simp
  next
    case src: (Inr sloc)
    obtain sb sk where sloc: "sloc = (sb, sk)" by (cases sloc)
    show ?thesis
    proof (cases "parse_s3_uri dst")
      case (Inl e)
      with mt src sloc have "w1 = w" by (simp add: move_try_def)
      with res w' show ?thesis by simp
    next
      case dstp: (Inr dloc)
      obtain db dd where dloc: "dloc = (db, dd)" by (cases dloc)
      define dk where "dk = path_join dd (basename sk)"
      define wl where "wl = logging (Debug_Moving source_path (path_join db dk)) w"
      obtain rc w2 where cp: "copy_object db dk source_path wl = (rc, w2)"
        by (cases "copy_object db dk source_path wl")
      note cc = copy_object_cases [OF cp]
      show ?thesis
      proof (cases rc)
        case (Inl e)
        with mt src sloc dstp dloc cp have "w1 = w2"
          by (simp add: move_try_def Let_def dk_def wl_def)
        with cc Inl res w' src sloc dstp dloc show ?thesis
          by (auto simp: wl_def dk_def logging_keeps)
      next
        case (Inr u)
        obtain rd w3 where dl: "delete_object sb sk w2 = (rd, w3)"
          by (cases "delete_object sb sk w2")
        note dc = delete_object_cases [OF dl]
        from mt src sloc dstp dloc cp Inr dl have w13: "w1 = w3"
          by (simp add: move_try_def Let_def dk_def wl_def)
        from cc Inr obtain v0 where
          c1: "calls w2 = calls w @ [(CopyObject db dk source_path, True)]"
          and c2: "copy_source_loc source_path \<noteq> (db, dk)"
          and c3: "lookup_object w (copy_source_loc source_path) = Some v0"
          and c4: "\<And>loc. lookup_object w2 loc = (if loc = (db, dk) then Some v0 else lookup_object w loc)"
          by (auto simp: wl_def logging_keeps)
        from dc obtain ok where d1: "calls w3 = calls w2 @ [(DeleteObject sb sk, ok)]"
          by auto
        from dc have
          d2: "(\<forall>loc. lookup_object w3 loc = lookup_object w2 loc)
               \<or> (\<forall>loc. lookup_object w3 loc
                           = (if loc = (sb, sk) then None else lookup_object w2 loc))"
          by (auto simp: lookup_object_def)
        define sl where "sl = copy_source_loc source_path"
        have s2: "lookup_object w2 sl = Some v0" and t2: "lookup_object w2 (db, dk) = Some v0"
          using c2 c3 c4 [of sl] c4 [of "(db, dk)"] by (simp_all add: sl_def)
        have keep: "lookup_object w3 sl = Some v0 \<or> lookup_object w3 (db, dk) = Some v0"
        proof (cases "sl = (sb, sk)")
          case True
          then have "(db, dk) \<noteq> (sb, sk)" using c2 by (auto simp: sl_def)
          then have "lookup_object w3 (db, dk) = lookup_object w2 (db, dk)"
            using d2 by presburger
          with t2 show ?thesis by simp
        next
          case False
          then have "lookup_object w3 sl = lookup_object w2 sl"
            using d2 by presburger
          with s2 show ?thesis by simp
        qed
        have "calls w' = calls w @ [(CopyObject db dk source_path, True), (DeleteObject sb sk, ok)]"
          using w' w13 c1 d1 by simp
        moreover have "\<forall>v. lookup_object w (copy_source_loc source_path) = Some v
                 \<longrightarrow> lookup_object w' (copy_source_loc source_path) = Some v
                     \<or> lookup_object w' (db, dk) = Some v"
          using keep c3 w' w13 by (auto simp: sl_def)
        ultimately show ?thesis
          using res src sloc dstp dloc unfolding dk_def by blast
      qed
    qed
  qed
qed

text \<open>
  C4 fails on a source path that holds the scheme text. The store holds the object A
  under the key \<^verbatim>\<open>in/s3://x\<close> and the object B under \<^verbatim>\<open>in/x\<close>. The move of the
  listed path \<^verbatim>\<open>bucket/in/s3://x\<close> copies A to \<^verbatim>\<open>seg/x\<close> and then deletes the key
  \<^verbatim>\<open>in/x\<close>: B is deleted without having been copied, and A is not deleted.
\<close>

theorem move_deletes_other_object:
  "lookup_object w_scheme (''bucket'', ''in/x'') = Some ''B''
   \<and> fst (move_files_to_s3 ''bucket/in/s3://x'' ''s3://bucket/seg/'' w_scheme) = Inr ()
   \<and> calls (snd (move_files_to_s3 ''bucket/in/s3://x'' ''s3://bucket/seg/'' w_scheme))
       = [(CopyObject ''bucket'' ''seg/x'' ''bucket/in/s3://x'', True),
          (DeleteObject ''bucket'' ''in/x'', True)]
   \<and> objects (snd (move_files_to_s3 ''bucket/in/s3://x'' ''s3://bucket/seg/'' w_scheme))
       = [((''bucket'', ''seg/x''), ''A''), ((''bucket'', ''in/s3://x''), ''A'')]
   \<and> logged (snd (move_files_to_s3 ''bucket/in/s3://x'' ''s3://bucket/seg/'' w_scheme))
       = [Debug_Moving ''bucket/in/s3://x'' ''bucket/seg/x'']"
  by code_simp

text \<open>
  On a source path that the parser splits where the store splits it, a move is as C4
  describes it: the delete is issued only after a successful copy and is the delete of
  the copied object's key, a failed copy leaves the store unchanged, and the object is
  afterwards at its source, at its destination, or at both.
\<close>

lemma move_on_plain_path:
  assumes "move_files_to_s3 source_path dst w = (r, w')"
    and "parse_s3_uri source_path = Inr (copy_source_loc source_path)"
  shows "r = Inr ()
         \<and> (\<exists>tr. calls w' = calls w @ tr
               \<and> (tr = [] \<and> objects w' = objects w
                   \<or> (\<exists>b k. tr = [(CopyObject b k source_path, False)] \<and> objects w' = objects w)
                   \<or> (\<exists>b k ok. tr = [(CopyObject b k source_path, True),
                                         (DeleteObject (fst (copy_source_loc source_path))
                                            (snd (copy_source_loc source_path)), ok)]
                         \<and> (\<forall>v. lookup_object w (copy_source_loc source_path) = Some v
                               \<longrightarrow> lookup_object w' (copy_source_loc source_path) = Some v
                                   \<or> lookup_object w' (b, k) = Some v))))"
  using move_outcomes [OF assms(1)] assms(2)
  by (elim conjE exE disjE) (auto simp: prod_eq_iff)

section \<open>Properties of the dispatcher and the engine\<close>

lemma move_files_to_s3_returns: "fst (move_files_to_s3 src dst w) = Inr ()"
  by (simp add: move_files_to_s3_def split: prod.splits sum.splits)

lemma extract_safe:
  assumes "re_compile L pat = Inr p"
    and "\<And>s e. strptime L s fmt = Inl e \<Longrightarrow> e = ValueError"
  shows "\<exists>d. fst (extract_datetime_from_filename L f pat fmt w) = Inr d"
proof (cases "re_search L p f")
  case None
  with assms(1) show ?thesis by (simp add: extract_datetime_from_filename_def)
next
  case (Some gs)
  show ?thesis
  proof (cases "strptime L (concat (map py_str gs)) fmt")
    case (Inl e)
    with assms(2) have "e = ValueError" by blast
    with Inl Some assms(1) show ?thesis
      by (simp add: extract_datetime_from_filename_def)
  next
    case (Inr t)
    with Some assms(1) show ?thesis
      by (simp add: extract_datetime_from_filename_def)
  qed
qed

lemma file_date_safe:
  assumes "classification_safe L cfg"
  shows "\<exists>d. fst (file_date L cfg dd file w) = Inr d"
proof (cases "no_pattern (match_pattern cfg)")
  case True
  then show ?thesis by (simp add: file_date_def)
next
  case False
  with assms obtain p where "re_compile L (the (match_pattern cfg)) = Inr p"
    and "\<And>s e. strptime L s (datetime_format cfg) = Inl e \<Longrightarrow> e = ValueError"
    by (auto simp: classification_safe_def)
  from extract_safe [OF this] False show ?thesis
    by (simp add: file_date_def)
qed

lemma submit_files_fold:
  assumes "classification_safe L cfg"
  shows "submit_files L cfg dd files w = (Inr (), foldl (file_step L cfg dd) w files)"
proof (induction files arbitrary: w)
  case Nil
  show ?case by simp
next
  case (Cons f fs)
  from file_date_safe [OF assms, of dd f w] obtain d where
    d: "fst (file_date L cfg dd f w) = Inr d" by blast
  then obtain w1 where fd: "file_date L cfg dd f w = (Inr d, w1)"
    by (cases "file_date L cfg dd f w") simp
  show ?case
    using Cons.IH [of "snd (move_files_to_s3 f (destination_dir L cfg d) w1)"] fd
    by (simp add: file_step_def)
qed

lemma fmt_tokens_ymd:
  "fmt_tokens ''%Y%m%d'' = [FDir CHR ''Y'', FDir CHR ''m'', FDir CHR ''d'']"
  by simp

lemma py_strptime_ymd_raises:
  "py_strptime s ''%Y%m%d'' = Inl e \<Longrightarrow> e = ValueError"
  unfolding py_strptime_def fmt_tokens_ymd
  by (simp add: Let_def tok_unmodelled_def tok_bad_def fmt_directives_def
                modelled_directives_def is_letter_def
           split: list.splits if_splits)

lemma classification_safe_cfg0: "classification_safe py cfg0"
proof -
  have "re_compile py (the (match_pattern cfg0))
          = Inr (projr (re_compile py (the (match_pattern cfg0))))"
    by code_simp
  moreover have "\<forall>s e. strptime py s (datetime_format cfg0) = Inl e \<longrightarrow> e = ValueError"
    using py_strptime_ymd_raises by (simp add: py_def cfg0_def)
  ultimately show ?thesis
    unfolding classification_safe_def by blast
qed

lemma for_pages_page:
  "list_s3_get_files (s3_dir cfg) (n_keys cfg) (n_loops cfg) g w = (Inr (Some files), g1, w1)
   \<Longrightarrow> submit_files L cfg dd files w1 = (Inr (), w2)
   \<Longrightarrow> for_pages L cfg dd g w = for_pages L cfg dd g1 w2"
  by (subst for_pages.simps) simp

lemma for_pages_stop:
  "list_s3_get_files (s3_dir cfg) (n_keys cfg) (n_loops cfg) g w = (Inr None, g1, w1)
   \<Longrightarrow> for_pages L cfg dd g w = (Inr (), w1)"
  by (subst for_pages.simps) simp

lemma for_pages_raise:
  "list_s3_get_files (s3_dir cfg) (n_keys cfg) (n_loops cfg) g w = (Inl e, g1, w1)
   \<Longrightarrow> for_pages L cfg dd g w = (Inl e, w1)"
  by (subst for_pages.simps) simp

lemma start_segregation_run:
  "minus_seconds L now (time_delay cfg) = Inr dd \<Longrightarrow> 0 < n_workers cfg
   \<Longrightarrow> for_pages L cfg dd Gen_Created w = (r, w1)
   \<Longrightarrow> start_segregation L cfg now w
       = (case r of Inl e \<Rightarrow> (Inr (), logging (Error_Run e) w1) | Inr u \<Rightarrow> (Inr (), w1))"
  by (simp add: start_segregation_def split: sum.splits)

text \<open>
  C5, as stated, fails in its last part: a run in which the copy of one file fails
  returns \<^verbatim>\<open>None\<close> like any other run, and all it emits about the failure is the
  error record of that move. No count of failed moves and no summary is produced. (The
  run below also shows the sibling file moved and the next pages listed.)
\<close>

theorem run_reports_no_summary:
  "fst (start_segregation py cfg0 now0 (w_in\<lparr>faults := [False, True]\<rparr>)) = Inr ()
   \<and> logged (snd (start_segregation py cfg0 now0 (w_in\<lparr>faults := [False, True]\<rparr>)))
      = [Info_Loop 1 10 3 2,
         Debug_Moving (''bucket/in/'' @ cdr_small) (''bucket/seg/2024/09/01/'' @ cdr_small),
         Error_Moving (''bucket/in/'' @ cdr_small) ''s3://bucket/seg/2024/09/01/'' BotoError,
         Error_No_match ''report.txt'' cdr_pattern,
         Debug_Moving ''bucket/in/report.txt'' ''bucket/err/report.txt'',
         Info_Loop 2 10 2 1,
         Debug_Moving (''bucket/in/'' @ cdr_small) (''bucket/seg/2024/09/01/'' @ cdr_small),
         Warning_No_files_left]"
proof -
  let ?W = "w_in\<lparr>faults := [False, True]\<rparr>"
  let ?pull = "list_s3_get_files (s3_dir cfg0) (n_keys cfg0) (n_loops cfg0)"
  let ?W1 = "snd (snd (?pull Gen_Created ?W))"
  let ?F1 = "[''bucket/in/'' @ cdr_small, ''bucket/in/report.txt'']"
  let ?G1 = "Gen_Suspended ''bucket'' ''in/'' 2"
  let ?W2 = "foldl (file_step py cfg0 default0) ?W1 ?F1"
  let ?W3 = "snd (snd (?pull ?G1 ?W2))"
  let ?F2 = "[''bucket/in/'' @ cdr_small]"
  let ?G2 = "Gen_Suspended ''bucket'' ''in/'' 3"
  let ?W4 = "foldl (file_step py cfg0 default0) ?W3 ?F2"
  let ?W5 = "snd (snd (?pull ?G2 ?W4))"
  note fold = submit_files_fold [OF classification_safe_cfg0]
  have d: "minus_seconds py now0 (time_delay cfg0) = Inr default0" by code_simp
  have n: "0 < n_workers cfg0" by code_simp
  have p1: "?pull Gen_Created ?W = (Inr (Some ?F1), ?G1, ?W1)" by code_simp
  have p2: "?pull ?G1 ?W2 = (Inr (Some ?F2), ?G2, ?W3)" by code_simp
  have p3: "?pull ?G2 ?W4 = (Inr None, Gen_Done, ?W5)" by code_simp
  have "for_pages py cfg0 default0 Gen_Created ?W = (Inr (), ?W5)"
    using for_pages_page [OF p1 fold] for_pages_page [OF p2 fold] for_pages_stop [OF p3]
    by simp
  from start_segregation_run [OF d n this]
  have r: "start_segregation py cfg0 now0 ?W = (Inr (), ?W5)" by simp
  have l: "logged ?W5
      = [Info_Loop 1 10 3 2,
         Debug_Moving (''bucket/in/'' @ cdr_small) (''bucket/seg/2024/09/01/'' @ cdr_small),
         Error_Moving (''bucket/in/'' @ cdr_small) ''s3://bucket/seg/2024/09/01/'' BotoError,
         Error_No_match ''report.txt'' cdr_pattern,
         Debug_Moving ''bucket/in/report.txt'' ''bucket/err/report.txt'',
         Info_Loop 2 10 2 1,
         Debug_Moving (''bucket/in/'' @ cdr_small) (''bucket/seg/2024/09/01/'' @ cdr_small),
         Warning_No_files_left]"
    by code_simp
  show ?thesis
    unfolding r using l by simp
qed

text \<open>
  C5, amended. A move never raises: an exception of its body is caught and logged with
  the source path and the destination directory. When the classification cannot raise,
  the loop over a page runs the move of every file of the page, whatever the earlier
  moves did, and the engine goes on to pull the next page.
\<close>

theorem move_failures_are_isolated:
  "fst (move_files_to_s3 src dst w) = Inr ()
   \<and> (\<forall>e w1. move_try src dst w = (Inl e, w1)
         \<longrightarrow> move_files_to_s3 src dst w = (Inr (), logging (Error_Moving src dst e) w1))
   \<and> (classification_safe L cfg
        \<longrightarrow> submit_files L cfg dd files w = (Inr (), foldl (file_step L cfg dd) w files))
   \<and> (classification_safe L cfg
        \<and> list_s3_get_files (s3_dir cfg) (n_keys cfg) (n_loops cfg) g w = (Inr (Some files), g1, w1)
        \<longrightarrow> for_pages L cfg dd g w
            = for_pages L cfg dd g1 (foldl (file_step L cfg dd) w1 files))"
proof -
  have "for_pages L cfg dd g w = for_pages L cfg dd g1 (foldl (file_step L cfg dd) w1 files)"
    if "classification_safe L cfg"
      and "list_s3_get_files (s3_dir cfg) (n_keys cfg) (n_loops cfg) g w = (Inr (Some files), g1, w1)"
    using that submit_files_fold [of L cfg dd files w1]
    by (subst for_pages.simps) simp
  moreover have "\<forall>e w1. move_try src dst w = (Inl e, w1)
         \<longrightarrow> move_files_to_s3 src dst w = (Inr (), logging (Error_Moving src dst e) w1)"
    by (simp add: move_files_to_s3_def)
  ultimately show ?thesis
    using move_files_to_s3_returns [of src dst w] submit_files_fold [of L cfg dd files w]
    by blast
qed

theorem move_failures_are_isolated_witness:
  "classification_safe py cfg0
   \<and> fst (submit_files py cfg0 default0 [''bucket/in/'' @ cdr_small, ''bucket/in/report.txt'']
             (w_in\<lparr>faults := [True]\<rparr>)) = Inr ()
   \<and> objects (snd (submit_files py cfg0 default0
                      [''bucket/in/'' @ cdr_small, ''bucket/in/report.txt'']
                      (w_in\<lparr>faults := [True]\<rparr>)))
     = [((''bucket'', ''err/report.txt''), ''txt''), ((''bucket'', ''in/''), []),
        ((''bucket'', ''in/'' @ cdr_small), ''cdr'')]
   \<and> logged (snd (submit_files py cfg0 default0
                     [''bucket/in/'' @ cdr_small, ''bucket/in/report.txt'']
                     (w_in\<lparr>faults := [True]\<rparr>)))
     = [Debug_Moving (''bucket/in/'' @ cdr_small) (''bucket/seg/2024/09/01/'' @ cdr_small),
        Error_Moving (''bucket/in/'' @ cdr_small) ''s3://bucket/seg/2024/09/01/'' BotoError,
        Error_No_match ''report.txt'' cdr_pattern,
        Debug_Moving ''bucket/in/report.txt'' ''bucket/err/report.txt'']"
proof -
  let ?F = "[''bucket/in/'' @ cdr_small, ''bucket/in/report.txt'']"
  let ?W = "w_in\<lparr>faults := [True]\<rparr>"
  let ?W' = "foldl (file_step py cfg0 default0) ?W ?F"
  have o: "objects ?W'
             = [((''bucket'', ''err/report.txt''), ''txt''), ((''bucket'', ''in/''), []),
                ((''bucket'', ''in/'' @ cdr_small), ''cdr'')]"
    by code_simp
  have l: "logged ?W'
     = [Debug_Moving (''bucket/in/'' @ cdr_small) (''bucket/seg/2024/09/01/'' @ cdr_small),
        Error_Moving (''bucket/in/'' @ cdr_small) ''s3://bucket/seg/2024/09/01/'' BotoError,
        Error_No_match ''report.txt'' cdr_pattern,
        Debug_Moving ''bucket/in/report.txt'' ''bucket/err/report.txt'']"
    by code_simp
  show ?thesis
    using move_failures_are_isolated [where L = py and cfg = cfg0 and dd = default0
            and files = ?F and w = ?W]
          classification_safe_cfg0 o l
    by simp
qed

text \<open>
  C7, as stated, fails: when the first listing call fails, the engine catches the
  exception and logs it, and the script ends with exit status 0.
\<close>

theorem listing_failure_exits_zero:
  "fst (main_exit_status py cfg0 now0 (w_in\<lparr>faults := [True]\<rparr>)) = 0
   \<and> calls (snd (main_exit_status py cfg0 now0 (w_in\<lparr>faults := [True]\<rparr>)))
     = [(ListObjectsV2 ''bucket'' ''in/'' 500, False)]
   \<and> logged (snd (main_exit_status py cfg0 now0 (w_in\<lparr>faults := [True]\<rparr>)))
     = [Error_Run BotoError]"
proof -
  let ?W = "w_in\<lparr>faults := [True]\<rparr>"
  let ?pull = "list_s3_get_files (s3_dir cfg0) (n_keys cfg0) (n_loops cfg0)"
  let ?W1 = "snd (snd (?pull Gen_Created ?W))"
  have d: "minus_seconds py now0 (time_delay cfg0) = Inr default0" by code_simp
  have n: "0 < n_workers cfg0" by code_simp
  have p: "?pull Gen_Created ?W = (Inl BotoError, Gen_Done, ?W1)" by code_simp
  have c: "calls ?W1 = [(ListObjectsV2 ''bucket'' ''in/'' 500, False)]" by code_simp
  have l: "logged ?W1 = []" by code_simp
  have "start_segregation py cfg0 now0 ?W = (Inr (), logging (Error_Run BotoError) ?W1)"
    using start_segregation_run [OF d n for_pages_raise [OF p]] by simp
  then show ?thesis
    using c l by (simp add: main_exit_status_def logging_keeps)
qed

text \<open>
  C7, amended. At whichever pull the listing raises, the loop over the pages ends at
  once, in the state the failed call left; the engine logs the exception and the exit
  status is 0. From the call of the engine on, the exit status is non-zero only when
  the computation of the default date raises; no failure of a listing or of a move
  makes it non-zero.
\<close>

theorem listing_failure_stops_run:
  "(list_s3_get_files (s3_dir cfg) (n_keys cfg) (n_loops cfg) g w = (Inl e, g1, w1)
      \<longrightarrow> for_pages L cfg dd g w = (Inl e, w1))
   \<and> (minus_seconds L now (time_delay cfg) = Inr dd \<and> 0 < n_workers cfg
        \<and> list_s3_get_files (s3_dir cfg) (n_keys cfg) (n_loops cfg) Gen_Created w
            = (Inl e, g1, w1)
      \<longrightarrow> main_exit_status L cfg now w = (0, logging (Error_Run e) w1))
   \<and> ((fst (main_exit_status L cfg now w) \<noteq> 0)
        = (\<exists>x. minus_seconds L now (time_delay cfg) = Inl x))"
proof -
  have a: "for_pages L cfg dd g w = (Inl e, w1)"
    if "list_s3_get_files (s3_dir cfg) (n_keys cfg) (n_loops cfg) g w = (Inl e, g1, w1)"
    using that by (rule for_pages_raise)
  have b: "main_exit_status L cfg now w = (0, logging (Error_Run e) w1)"
    if "minus_seconds L now (time_delay cfg) = Inr dd" "0 < n_workers cfg"
       "list_s3_get_files (s3_dir cfg) (n_keys cfg) (n_loops cfg) Gen_Created w = (Inl e, g1, w1)"
    using start_segregation_run [OF that(1,2) for_pages_raise [OF that(3)]]
    by (simp add: main_exit_status_def)
  have c: "(fst (main_exit_status L cfg now w) \<noteq> 0)
           = (\<exists>x. minus_seconds L now (time_delay cfg) = Inl x)"
    by (auto simp: main_exit_status_def start_segregation_def
             split: sum.splits prod.splits if_splits)
  from a b c show ?thesis by blast
qed

theorem listing_failure_stops_run_witness:
  "list_s3_get_files (s3_dir cfg0) (n_keys cfg0) (n_loops cfg0) Gen_Created
     (w_in\<lparr>faults := [True]\<rparr>)
     = (Inl BotoError, Gen_Done,
        w_in\<lparr>faults := [], calls := [(ListObjectsV2 ''bucket'' ''in/'' 500, False)]\<rparr>)
   \<and> main_exit_status py cfg0 now0 (w_in\<lparr>faults := [True]\<rparr>)
     = (0, logging (Error_Run BotoError)
             (w_in\<lparr>faults := [], calls := [(ListObjectsV2 ''bucket'' ''in/'' 500, False)]\<rparr>))"
proof -
  let ?W = "w_in\<lparr>faults := [True]\<rparr>"
  let ?W1 = "w_in\<lparr>faults := [], calls := [(ListObjectsV2 ''bucket'' ''in/'' 500, False)]\<rparr>"
  have d: "minus_seconds py now0 (time_delay cfg0) = Inr default0" by code_simp
  have n: "0 < n_workers cfg0" by code_simp
  have p: "list_s3_get_files (s3_dir cfg0) (n_keys cfg0) (n_loops cfg0) Gen_Created ?W
             = (Inl BotoError, Gen_Done, ?W1)"
    by code_simp
  show ?thesis
    using listing_failure_stops_run [where cfg = cfg0 and g = Gen_Created and w = ?W
            and e = BotoError and ?g1.0 = Gen_Done and ?w1.0 = ?W1 and L = py
            and dd = default0 and now = now0]
          d n p
    by simp
qed

section \<open>Properties of the paginator\<close>

lemma list_objects_v2_cases:
  assumes "list_objects_v2 b d nk w = (r, w')"
  shows "(r = Inl BotoError \<and> calls w' = calls w @ [(ListObjectsV2 b d nk, False)]
            \<or> r = Inr (take (nat (min nk 1000)) (keys_under w b d))
               \<and> calls w' = calls w @ [(ListObjectsV2 b d nk, True)])
         \<and> objects w' = objects w \<and> logged w' = logged w"
  using assms
  by (auto simp: list_objects_v2_def Let_def record_call_def take_fault_keeps split: if_splits)

lemma list_s3_loop_yield:
  assumes "list_s3_loop b d nk nl c w = (Inr (Some page), g', w')"
  shows "c \<le> nl \<and> g' = Gen_Suspended b d (c + 1)
         \<and> page = map (path_join b) (real_files (take (nat (min nk 1000)) (keys_under w b d)))
         \<and> page \<noteq> [] \<and> length page \<le> nat nk
         \<and> calls w' = calls w @ [(ListObjectsV2 b d nk, True)] \<and> objects w' = objects w"
proof -
  from assms have c: "c \<le> nl"
    by (auto simp: list_s3_loop_def split: if_splits)
  obtain r w1 where l: "list_objects_v2 b d nk w = (r, w1)"
    by (cases "list_objects_v2 b d nk w")
  from assms c l obtain ks where r: "r = Inr ks"
    by (cases r) (auto simp: list_s3_loop_def)
  from list_objects_v2_cases [OF l] r
  have ks: "ks = take (nat (min nk 1000)) (keys_under w b d)"
    and w1: "calls w1 = calls w @ [(ListObjectsV2 b d nk, True)]" "objects w1 = objects w"
    by auto
  from assms c l r have
    "g' = Gen_Suspended b d (c + 1) \<and> page = map (path_join b) (real_files ks) \<and> page \<noteq> []
     \<and> w' = logging (Info_Loop c nl (length ks) (length page)) w1"
    by (auto simp: list_s3_loop_def Let_def real_files_def split: if_splits)
  moreover have "length (real_files ks) \<le> nat nk"
  proof -
    have "length (real_files ks) \<le> length ks" by (simp add: real_files_def)
    also have "\<dots> \<le> nat (min nk 1000)" by (simp add: ks)
    also have "\<dots> \<le> nat nk" by simp
    finally show ?thesis .
  qed
  ultimately show ?thesis
    using c ks w1 by (auto simp: logging_keeps)
qed

lemma list_s3_loop_end:
  "(fst (list_s3_loop b d nk nl c w) = Inr None)
   = (nl < c \<or> (\<exists>ks. fst (list_objects_v2 b d nk w) = Inr ks \<and> real_files ks = []))"
  by (auto simp: list_s3_loop_def Let_def real_files_def split: prod.splits sum.splits if_splits)

lemma list_s3_loop_raise:
  "(fst (list_s3_loop b d nk nl c w) = Inl e)
   = (c \<le> nl \<and> fst (list_objects_v2 b d nk w) = Inl e)"
  by (auto simp: list_s3_loop_def Let_def split: prod.splits sum.splits if_splits)

lemma pull_pages_left:
  assumes "list_s3_get_files p nk nl g w = (Inr (Some page), g', w')"
  shows "Suc (pages_left nl g') \<le> pages_left nl g"
proof (cases g)
  case Gen_Created
  with assms obtain b d where "list_s3_loop b d nk nl 1 w = (Inr (Some page), g', w')"
    by (auto simp: list_s3_get_files_def split: sum.splits)
  from list_s3_loop_yield [OF this] have "1 \<le> nl" "g' = Gen_Suspended b d (1 + 1)"
    by simp_all
  with Gen_Created show ?thesis
    by (simp add: pages_left_def)
next
  case (Gen_Suspended b d c)
  with assms have "list_s3_loop b d nk nl c w = (Inr (Some page), g', w')"
    by (simp add: list_s3_get_files_def)
  from list_s3_loop_yield [OF this] have "c \<le> nl" "g' = Gen_Suspended b d (c + 1)"
    by simp_all
  with Gen_Suspended show ?thesis
    by (simp add: pages_left_def)
next
  case Gen_Done
  with assms show ?thesis by (simp add: list_s3_get_files_def)
qed

lemma pull_page_shape:
  assumes "list_s3_get_files p nk nl g w = (Inr (Some page), g', w')"
  shows "page \<noteq> [] \<and> length page \<le> nat nk
         \<and> (\<exists>b d. page = map (path_join b)
                            (real_files (take (nat (min nk 1000)) (keys_under w b d)))
                  \<and> calls w' = calls w @ [(ListObjectsV2 b d nk, True)])"
proof (cases g)
  case Gen_Created
  with assms obtain b d where "list_s3_loop b d nk nl 1 w = (Inr (Some page), g', w')"
    by (auto simp: list_s3_get_files_def split: sum.splits)
  from list_s3_loop_yield [OF this] show ?thesis by blast
next
  case (Gen_Suspended b d c)
  with assms have "list_s3_loop b d nk nl c w = (Inr (Some page), g', w')"
    by (simp add: list_s3_get_files_def)
  from list_s3_loop_yield [OF this] show ?thesis by blast
next
  case Gen_Done
  with assms show ?thesis by (simp add: list_s3_get_files_def)
qed

lemma pages_pulled_length:
  "length (pages_pulled use p nk nl g w) \<le> pages_left nl g"
proof (induction use p nk nl g w rule: pages_pulled.induct)
  case (1 use p nk nl g w)
  obtain r g1 w1 where pl: "list_s3_get_files p nk nl g w = (r, g1, w1)"
    by (cases "list_s3_get_files p nk nl g w")
  show ?case
  proof (cases r)
    case (Inl e)
    with pl show ?thesis by (subst pages_pulled.simps) simp
  next
    case (Inr po)
    show ?thesis
    proof (cases po)
      case None
      with pl Inr show ?thesis by (subst pages_pulled.simps) simp
    next
      case (Some page)
      with pl Inr have y: "list_s3_get_files p nk nl g w = (Inr (Some page), g1, w1)" by simp
      from "1.IH" [OF y [symmetric] refl refl refl]
      have "length (pages_pulled use p nk nl g1 (use page w1)) \<le> pages_left nl g1" .
      with pull_pages_left [OF y] y show ?thesis
        by (subst pages_pulled.simps) simp
    qed
  qed
qed

lemma pages_pulled_shape:
  "page \<in> set (pages_pulled use p nk nl g w) \<Longrightarrow>
   page \<noteq> [] \<and> length page \<le> nat nk
   \<and> (\<exists>b ks. page = map (path_join b) ks \<and> list_all (\<lambda>k. \<not> endswith_slash k) ks)"
proof (induction use p nk nl g w rule: pages_pulled.induct)
  case (1 use p nk nl g w)
  obtain r g1 w1 where pl: "list_s3_get_files p nk nl g w = (r, g1, w1)"
    by (cases "list_s3_get_files p nk nl g w")
  show ?case
  proof (cases r)
    case (Inl e)
    with pl "1.prems" show ?thesis by (subst (asm) pages_pulled.simps) simp
  next
    case (Inr po)
    show ?thesis
    proof (cases po)
      case None
      with pl Inr "1.prems" show ?thesis by (subst (asm) pages_pulled.simps) simp
    next
      case (Some pg)
      with pl Inr have y: "list_s3_get_files p nk nl g w = (Inr (Some pg), g1, w1)" by simp
      from "1.prems" y have "page = pg \<or> page \<in> set (pages_pulled use p nk nl g1 (use pg w1))"
        by (subst (asm) pages_pulled.simps) simp
      then show ?thesis
      proof
        assume pg: "page = pg"
        from pull_page_shape [OF y] obtain b d where
          s: "pg \<noteq> []" "length pg \<le> nat nk"
             "pg = map (path_join b) (real_files (take (nat (min nk 1000)) (keys_under w b d)))"
          by blast
        have "list_all (\<lambda>k. \<not> endswith_slash k)
                (real_files (take (nat (min nk 1000)) (keys_under w b d)))"
          by (simp add: real_files_def list_all_iff)
        with s pg show ?thesis by blast
      next
        assume "page \<in> set (pages_pulled use p nk nl g1 (use pg w1))"
        from "1.IH" [OF y [symmetric] refl refl refl this] show ?thesis .
      qed
    qed
  qed
qed

lemma pages_pulled_page:
  "list_s3_get_files p nk nl g w = (Inr (Some page), g1, w1) \<Longrightarrow>
   pages_pulled use p nk nl g w = page # pages_pulled use p nk nl g1 (use page w1)"
  by (subst pages_pulled.simps) simp

lemma pages_pulled_end:
  "list_s3_get_files p nk nl g w = (Inr None, g1, w1) \<Longrightarrow> pages_pulled use p nk nl g w = []"
  by (subst pages_pulled.simps) simp

text \<open>
  C6. A consumer that pulls from a fresh generator until it ends gets at most
  \<open>n_loops\<close> pages. Every page it gets is not empty, has at most \<open>n_keys\<close> entries
  and holds only keys that do not end in the separator; it is made from the result of
  one listing call with \<open>MaxKeys = n_keys\<close>. A suspended generator ends silently
  exactly when \<open>n_loops\<close> pages have been pulled or the listing succeeds and holds no
  key that is not a folder marker; in the first case no listing call is issued.
\<close>

theorem paginator_terminates:
  "length (pages_pulled use p nk nl Gen_Created w) \<le> nat nl
   \<and> (\<forall>page \<in> set (pages_pulled use p nk nl Gen_Created w).
         page \<noteq> [] \<and> length page \<le> nat nk
         \<and> (\<exists>b ks. page = map (path_join b) ks \<and> list_all (\<lambda>k. \<not> endswith_slash k) ks))
   \<and> (list_s3_get_files p nk nl g w = (Inr (Some page), g', w')
        \<longrightarrow> page \<noteq> [] \<and> length page \<le> nat nk
            \<and> (\<exists>b d. page = map (path_join b)
                               (real_files (take (nat (min nk 1000)) (keys_under w b d)))
                     \<and> calls w' = calls w @ [(ListObjectsV2 b d nk, True)]))
   \<and> ((fst (list_s3_get_files p nk nl (Gen_Suspended b d c) w) = Inr None)
        = (nl < c \<or> (\<exists>ks. fst (list_objects_v2 b d nk w) = Inr ks \<and> real_files ks = [])))
   \<and> (nl < c \<longrightarrow> list_s3_get_files p nk nl (Gen_Suspended b d c) w = (Inr None, Gen_Done, w))"
proof -
  have "length (pages_pulled use p nk nl Gen_Created w) \<le> nat nl"
    using pages_pulled_length [of use p nk nl Gen_Created w] by (simp add: pages_left_def)
  moreover have "\<forall>page \<in> set (pages_pulled use p nk nl Gen_Created w).
         page \<noteq> [] \<and> length page \<le> nat nk
         \<and> (\<exists>b ks. page = map (path_join b) ks \<and> list_all (\<lambda>k. \<not> endswith_slash k) ks)"
    using pages_pulled_shape by blast
  moreover have "list_s3_get_files p nk nl g w = (Inr (Some page), g', w')
        \<longrightarrow> page \<noteq> [] \<and> length page \<le> nat nk
            \<and> (\<exists>b d. page = map (path_join b)
                               (real_files (take (nat (min nk 1000)) (keys_under w b d)))
                     \<and> calls w' = calls w @ [(ListObjectsV2 b d nk, True)])"
    using pull_page_shape by blast
  moreover have "(fst (list_s3_get_files p nk nl (Gen_Suspended b d c) w) = Inr None)
        = (nl < c \<or> (\<exists>ks. fst (list_objects_v2 b d nk w) = Inr ks \<and> real_files ks = []))"
    using list_s3_loop_end [of b d nk nl c w] by (simp add: list_s3_get_files_def)
  moreover have "nl < c \<longrightarrow>
        list_s3_get_files p nk nl (Gen_Suspended b d c) w = (Inr None, Gen_Done, w)"
    by (simp add: list_s3_get_files_def list_s3_loop_def)
  ultimately show ?thesis by blast
qed

theorem paginator_terminates_witness:
  "pages_pulled (\<lambda>page w. foldl (file_step py cfg0 default0) w page) ''s3://bucket/in/'' 500 10
     Gen_Created w_in
     = [[''bucket/in/'' @ cdr_small, ''bucket/in/report.txt'']]
   \<and> pages_pulled (\<lambda>page w. w) ''s3://bucket/in/'' 500 10 Gen_Created
       (w_in\<lparr>objects := [((''bucket'', ''in/''), []), ((''bucket'', ''in/sub/''), [])]\<rparr>) = []
   \<and> pages_pulled (\<lambda>page w. w) ''s3://bucket/in/'' 2 2 Gen_Created w_in
     = [[''bucket/in/'' @ cdr_small], [''bucket/in/'' @ cdr_small]]
   \<and> list_s3_get_files ''s3://bucket/in/'' 2 2 (Gen_Suspended ''bucket'' ''in/'' 3) w_in
     = (Inr None, Gen_Done, w_in)"
proof -
  let ?use = "\<lambda>page w. foldl (file_step py cfg0 default0) w page"
  let ?F = "[''bucket/in/'' @ cdr_small, ''bucket/in/report.txt'']"
  let ?G1 = "Gen_Suspended ''bucket'' ''in/'' 2"
  let ?G2 = "Gen_Suspended ''bucket'' ''in/'' 3"
  let ?p1 = "list_s3_get_files ''s3://bucket/in/'' 500 10 Gen_Created w_in"
  let ?W1 = "snd (snd ?p1)"
  let ?p2 = "list_s3_get_files ''s3://bucket/in/'' 500 10 ?G1 (?use ?F ?W1)"
  have a1: "?p1 = (Inr (Some ?F), ?G1, ?W1)" by code_simp
  have a2: "?p2 = (Inr None, Gen_Done, snd (snd ?p2))" by code_simp
  have a: "pages_pulled ?use ''s3://bucket/in/'' 500 10 Gen_Created w_in = [?F]"
    using pages_pulled_page [OF a1, of ?use] pages_pulled_end [OF a2, of ?use] by simp
  let ?D = "w_in\<lparr>objects := [((''bucket'', ''in/''), []), ((''bucket'', ''in/sub/''), [])]\<rparr>"
  let ?q = "list_s3_get_files ''s3://bucket/in/'' 500 10 Gen_Created ?D"
  have b1: "?q = (Inr None, Gen_Done, snd (snd ?q))" by code_simp
  have b: "pages_pulled (\<lambda>page w. w) ''s3://bucket/in/'' 500 10 Gen_Created ?D = []"
    using pages_pulled_end [OF b1] by simp
  let ?r1 = "list_s3_get_files ''s3://bucket/in/'' 2 2 Gen_Created w_in"
  let ?r2 = "list_s3_get_files ''s3://bucket/in/'' 2 2 ?G1 (snd (snd ?r1))"
  let ?r3 = "list_s3_get_files ''s3://bucket/in/'' 2 2 ?G2 (snd (snd ?r2))"
  have c1: "?r1 = (Inr (Some [''bucket/in/'' @ cdr_small]), ?G1, snd (snd ?r1))" by code_simp
  have c2: "?r2 = (Inr (Some [''bucket/in/'' @ cdr_small]), ?G2, snd (snd ?r2))" by code_simp
  have c3: "?r3 = (Inr None, Gen_Done, snd (snd ?r3))" by code_simp
  have c: "pages_pulled (\<lambda>page w. w) ''s3://bucket/in/'' 2 2 Gen_Created w_in
             = [[''bucket/in/'' @ cdr_small], [''bucket/in/'' @ cdr_small]]"
    using pages_pulled_page [OF c1, of "\<lambda>page w. w"] pages_pulled_page [OF c2, of "\<lambda>page w. w"]
          pages_pulled_end [OF c3, of "\<lambda>page w. w"]
    by simp
  show ?thesis
    using paginator_terminates [where use = "\<lambda>page w. w" and p = "''s3://bucket/in/''"
            and nk = 2 and nl = 2 and w = w_in and g = Gen_Done and c = 3
            and b = "''bucket''" and d = "''in/''"] a b c
    by simp
qed

section \<open>The engine on an exception of the date extractor\<close>







section \<open>Runs with no pattern configured\<close>

lemma added_calls_refl: "added_calls P w w"
  by (simp add: added_calls_def)

lemma added_calls_trans:
  "added_calls P w w1 \<Longrightarrow> added_calls P w1 w2 \<Longrightarrow> added_calls P w w2"
  by (auto simp: added_calls_def)

lemma added_calls_logging: "added_calls P w (logging r w)"
  by (simp add: added_calls_def logging_keeps)

lemma move_added_calls:
  "added_calls (copy_goes_to dst) w (snd (move_files_to_s3 src dst w))"
proof -
  have m: "move_files_to_s3 src dst w
             = (fst (move_files_to_s3 src dst w), snd (move_files_to_s3 src dst w))"
    by simp
  from move_outcomes [OF m] show ?thesis
    unfolding added_calls_def
    by (elim conjE exE disjE) (auto simp: copy_goes_to_def)
qed

lemma pull_added_calls:
  assumes "list_s3_get_files p nk nl g w = (r, g', w')"
  shows "added_calls (copy_goes_to dst) w w'"
proof -
  have loop: "added_calls (copy_goes_to dst) w w'"
    if "list_s3_loop b d nk nl c w = (r, g', w')" for b d c
  proof -
    obtain rl w1 where l: "list_objects_v2 b d nk w = (rl, w1)"
      by (cases "list_objects_v2 b d nk w")
    from list_objects_v2_cases [OF l]
    have w1: "added_calls (copy_goes_to dst) w w1"
      by (auto simp: added_calls_def copy_goes_to_def)
    from that l have "w' = w \<or> w' = w1 \<or> (\<exists>x. w' = logging x w1)"
      by (auto simp: list_s3_loop_def Let_def split: if_splits sum.splits)
    with w1 show ?thesis
      using added_calls_refl added_calls_logging added_calls_trans by blast
  qed
  show ?thesis
  proof (cases g)
    case Gen_Created
    show ?thesis
    proof (cases "parse_s3_uri p")
      case (Inl e)
      with assms Gen_Created show ?thesis
        by (simp add: list_s3_get_files_def added_calls_refl)
    next
      case (Inr loc)
      with assms Gen_Created show ?thesis
        by (cases loc) (auto simp: list_s3_get_files_def intro: loop)
    qed
  next
    case (Gen_Suspended b d c)
    with assms show ?thesis
      by (auto simp: list_s3_get_files_def intro: loop)
  next
    case Gen_Done
    with assms show ?thesis
      by (simp add: list_s3_get_files_def added_calls_refl)
  qed
qed

lemma file_date_no_pattern:
  "no_pattern (match_pattern cfg) \<Longrightarrow> file_date L cfg dd file w = (Inr (Some dd), w)"
  by (simp add: file_date_def)

lemma file_step_no_pattern:
  "no_pattern (match_pattern cfg) \<Longrightarrow>
   file_step L cfg dd w file
     = snd (move_files_to_s3 file (strftime L dd (s3_segregated_dir cfg)) w)"
  by (simp add: file_step_def file_date_no_pattern destination_dir_def)

lemma fold_added_calls:
  assumes "no_pattern (match_pattern cfg)"
  shows "added_calls (copy_goes_to (strftime L dd (s3_segregated_dir cfg))) w
           (foldl (file_step L cfg dd) w files)"
proof (induction files arbitrary: w)
  case Nil
  show ?case by (simp add: added_calls_refl)
next
  case (Cons f fs)
  have "added_calls (copy_goes_to (strftime L dd (s3_segregated_dir cfg))) w
          (file_step L cfg dd w f)"
    by (simp add: file_step_no_pattern [OF assms] move_added_calls)
  from added_calls_trans [OF this Cons.IH] show ?case by simp
qed

lemma no_pattern_safe: "no_pattern (match_pattern cfg) \<Longrightarrow> classification_safe L cfg"
  by (simp add: classification_safe_def)

lemma for_pages_added_calls:
  "no_pattern (match_pattern cfg) \<Longrightarrow>
   added_calls (copy_goes_to (strftime L dd (s3_segregated_dir cfg))) w
     (snd (for_pages L cfg dd g w))"
proof (induction L cfg dd g w rule: for_pages.induct)
  case (1 L cfg dd g w)
  let ?P = "copy_goes_to (strftime L dd (s3_segregated_dir cfg))"
  obtain r g1 w1 where pl:
    "list_s3_get_files (s3_dir cfg) (n_keys cfg) (n_loops cfg) g w = (r, g1, w1)"
    by (cases "list_s3_get_files (s3_dir cfg) (n_keys cfg) (n_loops cfg) g w")
  note a1 = pull_added_calls [OF pl, of "strftime L dd (s3_segregated_dir cfg)"]
  show ?case
  proof (cases r)
    case (Inl e)
    with pl a1 show ?thesis by (simp add: for_pages_raise)
  next
    case (Inr po)
    show ?thesis
    proof (cases po)
      case None
      with pl Inr a1 show ?thesis by (simp add: for_pages_stop)
    next
      case (Some files)
      with pl Inr have y:
        "list_s3_get_files (s3_dir cfg) (n_keys cfg) (n_loops cfg) g w = (Inr (Some files), g1, w1)"
        by simp
      let ?w2 = "foldl (file_step L cfg dd) w1 files"
      have s: "submit_files L cfg dd files w1 = (Inr (), ?w2)"
        using submit_files_fold [OF no_pattern_safe] "1.prems" by blast
      have a2: "added_calls ?P w1 ?w2"
        using fold_added_calls "1.prems" by blast
      have a3: "added_calls ?P ?w2 (snd (for_pages L cfg dd g1 ?w2))"
        using "1.IH" [OF y [symmetric] refl refl refl s [symmetric] refl] "1.prems" by blast
      have "for_pages L cfg dd g w = for_pages L cfg dd g1 ?w2"
        by (rule for_pages_page [OF y s])
      with a1 a2 a3 show ?thesis
        using added_calls_trans by metis
    qed
  qed
qed

lemma for_pages_bypass:
  "no_pattern (match_pattern cfg) \<Longrightarrow> strftime L' = strftime L \<Longrightarrow>
   for_pages L cfg dd g w = for_pages L' cfg dd g w"
proof (induction L cfg dd g w rule: for_pages.induct)
  case (1 L cfg dd g w)
  obtain r g1 w1 where pl:
    "list_s3_get_files (s3_dir cfg) (n_keys cfg) (n_loops cfg) g w = (r, g1, w1)"
    by (cases "list_s3_get_files (s3_dir cfg) (n_keys cfg) (n_loops cfg) g w")
  show ?case
  proof (cases r)
    case (Inl e)
    with pl show ?thesis by (simp add: for_pages_raise)
  next
    case (Inr po)
    show ?thesis
    proof (cases po)
      case None
      with pl Inr show ?thesis by (simp add: for_pages_stop)
    next
      case (Some files)
      with pl Inr have y:
        "list_s3_get_files (s3_dir cfg) (n_keys cfg) (n_loops cfg) g w = (Inr (Some files), g1, w1)"
        by simp
      let ?w2 = "foldl (file_step L cfg dd) w1 files"
      have fs: "file_step L' cfg dd = file_step L cfg dd"
        using "1.prems" by (auto simp: file_step_no_pattern fun_eq_iff)
      have s: "submit_files L cfg dd files w1 = (Inr (), ?w2)"
        using submit_files_fold [OF no_pattern_safe] "1.prems" by blast
      have s': "submit_files L' cfg dd files w1 = (Inr (), ?w2)"
        using submit_files_fold [OF no_pattern_safe, of cfg L'] "1.prems" fs by simp
      have "for_pages L cfg dd g1 ?w2 = for_pages L' cfg dd g1 ?w2"
        using "1.IH" [OF y [symmetric] refl refl refl s [symmetric] refl] "1.prems" by blast
      then show ?thesis
        using for_pages_page [OF y s] for_pages_page [OF y s'] by simp
    qed
  qed
qed

text \<open>
  C8. With no pattern configured, every file of the run is dated with the one default
  date, whatever the file and the state; the run does not depend on what the regular
  expression library or \<^verbatim>\<open>strptime\<close> would do; and every copy call of the run has as
  destination the segregated directory formatted with the default date computed once
  from \<open>now\<close>, joined with the base name of the source key.
\<close>

theorem no_pattern_one_default_date:
  assumes "no_pattern (match_pattern cfg)"
  shows "file_date L cfg dd path w = (Inr (Some dd), w)
         \<and> start_segregation (L\<lparr>re_compile := rc, re_search := rs, strptime := sp\<rparr>) cfg now w
             = start_segregation L cfg now w
         \<and> (\<forall>d. minus_seconds L now (time_delay cfg) = Inr d
               \<longrightarrow> added_calls (copy_goes_to (strftime L d (s3_segregated_dir cfg))) w
                     (snd (start_segregation L cfg now w)))"
proof -
  let ?L' = "L\<lparr>re_compile := rc, re_search := rs, strptime := sp\<rparr>"
  have "for_pages ?L' cfg d Gen_Created w = for_pages L cfg d Gen_Created w" for d
    by (rule for_pages_bypass [OF assms, symmetric]) simp
  then have b: "start_segregation ?L' cfg now w = start_segregation L cfg now w"
    by (cases "minus_seconds L now (time_delay cfg)"; cases "n_workers cfg \<le> 0")
       (simp_all add: start_segregation_def)
  have c: "added_calls (copy_goes_to (strftime L d (s3_segregated_dir cfg))) w
             (snd (start_segregation L cfg now w))"
    if d: "minus_seconds L now (time_delay cfg) = Inr d" for d
  proof (cases "n_workers cfg \<le> 0")
    case True
    with d show ?thesis
      by (simp add: start_segregation_def added_calls_logging)
  next
    case False
    let ?r = "for_pages L cfg d Gen_Created w"
    have a: "added_calls (copy_goes_to (strftime L d (s3_segregated_dir cfg))) w (snd ?r)"
      by (rule for_pages_added_calls [OF assms])
    have "snd (start_segregation L cfg now w) = snd ?r
          \<or> (\<exists>x. snd (start_segregation L cfg now w) = logging x (snd ?r))"
      using d False by (auto simp: start_segregation_def split: prod.splits sum.splits)
    with a show ?thesis
      using added_calls_logging added_calls_trans by metis
  qed
  from file_date_no_pattern [OF assms] b c show ?thesis by blast
qed

theorem no_pattern_one_default_date_witness:
  "no_pattern (match_pattern cfg_plain)
   \<and> file_date py cfg_plain default0 (''bucket/in/'' @ cdr_small) w_in
       = (Inr (Some default0), w_in)
   \<and> minus_seconds py now0 (time_delay cfg_plain) = Inr default0
   \<and> strftime py default0 (s3_segregated_dir cfg_plain) = ''s3://bucket/seg/2024/09/01/''
   \<and> calls (snd (start_segregation py cfg_plain now0 w_in))
     = [(ListObjectsV2 ''bucket'' ''in/'' 500, True),
        (CopyObject ''bucket'' (''seg/2024/09/01/'' @ cdr_small) (''bucket/in/'' @ cdr_small),
         True),
        (DeleteObject ''bucket'' (''in/'' @ cdr_small), True),
        (CopyObject ''bucket'' ''seg/2024/09/01/report.txt'' ''bucket/in/report.txt'', True),
        (DeleteObject ''bucket'' ''in/report.txt'', True),
        (ListObjectsV2 ''bucket'' ''in/'' 500, True)]"
proof -
  let ?pull = "list_s3_get_files (s3_dir cfg_plain) (n_keys cfg_plain) (n_loops cfg_plain)"
  let ?W1 = "snd (snd (?pull Gen_Created w_in))"
  let ?F1 = "[''bucket/in/'' @ cdr_small, ''bucket/in/report.txt'']"
  let ?G1 = "Gen_Suspended ''bucket'' ''in/'' 2"
  let ?W2 = "foldl (file_step py cfg_plain default0) ?W1 ?F1"
  let ?W3 = "snd (snd (?pull ?G1 ?W2))"
  have np: "no_pattern (match_pattern cfg_plain)" by code_simp
  note fold = submit_files_fold [OF no_pattern_safe [OF np], where L = py and dd = default0]
  have d: "minus_seconds py now0 (time_delay cfg_plain) = Inr default0" by code_simp
  have f: "strftime py default0 (s3_segregated_dir cfg_plain) = ''s3://bucket/seg/2024/09/01/''"
    by code_simp
  have n: "0 < n_workers cfg_plain" by code_simp
  have p1: "?pull Gen_Created w_in = (Inr (Some ?F1), ?G1, ?W1)" by code_simp
  have p2: "?pull ?G1 ?W2 = (Inr None, Gen_Done, ?W3)" by code_simp
  have "for_pages py cfg_plain default0 Gen_Created w_in = (Inr (), ?W3)"
    using for_pages_page [OF p1 fold] for_pages_stop [OF p2] by simp
  from start_segregation_run [OF d n this]
  have r: "start_segregation py cfg_plain now0 w_in = (Inr (), ?W3)" by simp
  have c: "calls ?W3
     = [(ListObjectsV2 ''bucket'' ''in/'' 500, True),
        (CopyObject ''bucket'' (''seg/2024/09/01/'' @ cdr_small) (''bucket/in/'' @ cdr_small),
         True),
        (DeleteObject ''bucket'' (''in/'' @ cdr_small), True),
        (CopyObject ''bucket'' ''seg/2024/09/01/report.txt'' ''bucket/in/report.txt'', True),
        (DeleteObject ''bucket'' ''in/report.txt'', True),
        (ListObjectsV2 ''bucket'' ''in/'' 500, True)]"
    by code_simp
  show ?thesis
    using no_pattern_one_default_date [OF np, where L = py and dd = default0
            and path = "''bucket/in/'' @ cdr_small" and w = w_in and now = now0]
          np d f c
    unfolding r by simp
qed

section \<open>Groups that take no part in the match\<close>












end
